theory Spec2Isabelle
  imports Main
begin

section \<open>Errors\<close>

text \<open>
  The source signals every failure with \<^verbatim>\<open>throw new Error(msg)\<close>; the message is
  the only thing that tells two failures apart, so an error value carries the message.
  \<^verbatim>\<open>normalizePath\<close> throws a bare string instead of an \<^verbatim>\<open>Error\<close> object, and a
  property read on \<^verbatim>\<open>undefined\<close> raises a \<^verbatim>\<open>TypeError\<close>.
\<close>

datatype error = Error string | ThrownValue string | TypeError

section \<open>Paths\<close>

text \<open>
  A string is a list of characters, and its length is the number of characters, as
  \<^verbatim>\<open>s.length\<close> is the number of code units of a JavaScript string.
\<close>

text \<open>\<^verbatim>\<open>s.split("/")\<close>: the pieces between separators, empty pieces included.\<close>

fun splitSlash :: "string \<Rightarrow> string list" where
  "splitSlash [] = [[]]"
| "splitSlash (c # cs) =
     (if c = CHR ''/'' then [] # splitSlash cs
      else (case splitSlash cs of [] \<Rightarrow> [[c]] | x # xs \<Rightarrow> (c # x) # xs))"

text \<open>\<^verbatim>\<open>xs.join("/")\<close>.\<close>

fun joinSlash :: "string list \<Rightarrow> string" where
  "joinSlash [] = []"
| "joinSlash [x] = x"
| "joinSlash (x # y # ys) = x @ ''/'' @ joinSlash (y # ys)"

text \<open>\<^verbatim>\<open>s.startsWith(t)\<close>.\<close>

definition startsWith :: "string \<Rightarrow> string \<Rightarrow> bool" where
  "startsWith s t = (take (length t) s = t)"

text \<open>
  \<^verbatim>\<open>path.posix.normalize\<close> belongs to the Node.js runtime, not to the repository. It is
  modelled on the segments between separators, which is how the runtime's
  \<^verbatim>\<open>normalizeString\<close> treats its input: an empty segment and \<^verbatim>\<open>.\<close> are dropped,
  \<^verbatim>\<open>..\<close> removes the previous segment unless there is none or it is itself
  \<^verbatim>\<open>..\<close>, in which case it is kept for a relative path and dropped for an absolute one.
  An absolute input keeps its leading separator, a trailing separator is kept, and an
  input that collapses to nothing becomes \<^verbatim>\<open>.\<close> (or \<^verbatim>\<open>./\<close>, or \<^verbatim>\<open>/\<close>).
\<close>

definition normalizeStep :: "bool \<Rightarrow> string list \<Rightarrow> string \<Rightarrow> string list" where
  "normalizeStep allowAboveRoot res seg =
     (if seg = [] \<or> seg = ''.'' then res
      else if seg = ''..'' then
        (if res \<noteq> [] \<and> last res \<noteq> ''..'' then butlast res
         else if allowAboveRoot then res @ [''..''] else res)
      else res @ [seg])"

definition normalizeString :: "string \<Rightarrow> bool \<Rightarrow> string" where
  "normalizeString path allowAboveRoot =
     joinSlash (foldl (normalizeStep allowAboveRoot) [] (splitSlash path))"

definition posix_normalize :: "string \<Rightarrow> string" where
  "posix_normalize path =
     (if path = [] then ''.''
      else
        let isAbsolute = (hd path = CHR ''/'');
            trailingSeparator = (last path = CHR ''/'');
            res = normalizeString path (\<not> isAbsolute)
        in if res = [] then
             (if isAbsolute then ''/'' else if trailingSeparator then ''./'' else ''.'')
           else (if isAbsolute then ''/'' else []) @ res
                @ (if trailingSeparator then ''/'' else []))"

text \<open>
  \<^verbatim>\<open>path.posix.join(a, b)\<close>: the non-empty arguments joined by a separator, then
  normalized; \<^verbatim>\<open>.\<close> when both are empty.
\<close>

definition posix_join :: "string \<Rightarrow> string \<Rightarrow> string" where
  "posix_join a b =
     (if a = [] \<and> b = [] then ''.''
      else if a = [] then posix_normalize b
      else if b = [] then posix_normalize a
      else posix_normalize (a @ ''/'' @ b))"

text \<open>
  \<^verbatim>\<open>normalizePath\<close> (filesystem.ts, lines 69 to 73). Its first line is
  \<^verbatim>\<open>if (!p) throw p = "/";\<close>: for an empty path the assignment is evaluated and its value,
  the string \<^verbatim>\<open>/\<close>, is thrown.
\<close>

definition normalizePath :: "string \<Rightarrow> error + string" where
  "normalizePath p =
     (if p = [] then Inl (ThrownValue ''/'')
      else let np = posix_normalize p
           in Inr (if startsWith np ''/'' then np else ''/'' @ np))"

text \<open>\<^verbatim>\<open>normalized.split("/").filter(Boolean)\<close>: the non-empty segments.\<close>

definition pathParts :: "string \<Rightarrow> string list" where
  "pathParts normalized = filter (\<lambda>x. x \<noteq> []) (splitSlash normalized)"

text \<open>A segment that normalization keeps: not empty, not a dot segment, without separator.\<close>

definition cleanSegment :: "string \<Rightarrow> bool" where
  "cleanSegment seg = (seg \<noteq> [] \<and> seg \<noteq> ''.'' \<and> seg \<noteq> ''..'' \<and> CHR ''/'' \<notin> set seg)"

section \<open>Node model\<close>

text \<open>
  \<^verbatim>\<open>Date.now()\<close> is read from the environment. Every operation that stamps a node
  takes the time of the call as an argument \<open>t\<close>; successive readings inside one call are
  taken to be equal.
\<close>

record BaseNodeMeta =
  createdAt :: int
  updatedAt :: int
  owner :: string
  mode :: string

text \<open>
  \<^verbatim>\<open>FSNode = FileNode | DirectoryNode\<close>. A file carries its name, its block ids, its
  size and its metadata; a directory its name, its children and its metadata. The
  \<^verbatim>\<open>children\<close> record is a plain object. Its own properties are kept as an
  association list, in insertion order and with unique keys (the rule that integer-like
  keys are enumerated first is left out). A plain object also answers for the names it
  inherits from \<^verbatim>\<open>Object.prototype\<close>, and the type \<^verbatim>\<open>FSNode\<close> is not checked when
  the program runs, so a variable of that type can hold three kinds of values that are no
  nodes: \<^verbatim>\<open>Object.prototype\<close> itself (read under the name \<^verbatim>\<open>__proto__\<close>), one of
  its functions (read under a name such as \<^verbatim>\<open>constructor\<close>), and the string that
  \<^verbatim>\<open>Object.prototype.name\<close> holds once an operation has assigned to it. Of the three
  only \<^verbatim>\<open>Object.prototype\<close> is ever stored in a tree. Block ids are array indices, so
  they are natural numbers.
\<close>

datatype FSNode =
    FileNode string "nat list" nat BaseNodeMeta
  | DirectoryNode string "(string \<times> FSNode) list" BaseNodeMeta
  | ObjectPrototype
  | InheritedFunction string
  | InheritedString string

text \<open>
  \<^verbatim>\<open>n.name\<close>, with \<open>None\<close> for \<^verbatim>\<open>undefined\<close>. The first argument is the value of
  \<^verbatim>\<open>Object.prototype.name\<close>, which a string inherits too. A function has a name of its
  own: \<^verbatim>\<open>Object.prototype.constructor\<close> is \<^verbatim>\<open>Object\<close>, and every other function of
  \<^verbatim>\<open>Object.prototype\<close> is named after its property.
\<close>

fun nodeName :: "string option \<Rightarrow> FSNode \<Rightarrow> string option" where
  "nodeName pn (FileNode nm bs sz m) = Some nm"
| "nodeName pn (DirectoryNode nm ch m) = Some nm"
| "nodeName pn ObjectPrototype = pn"
| "nodeName pn (InheritedFunction k) = Some (if k = ''constructor'' then ''Object'' else k)"
| "nodeName pn (InheritedString x) = pn"

text \<open>A value used as a property key: \<^verbatim>\<open>undefined\<close> is the key \<^verbatim>\<open>"undefined"\<close>.\<close>

fun propertyKey :: "string option \<Rightarrow> string" where
  "propertyKey None = ''undefined''"
| "propertyKey (Some k) = k"

text \<open>\<^verbatim>\<open>n.meta\<close>, with \<open>None\<close> for \<^verbatim>\<open>undefined\<close>.\<close>

fun nodeMeta :: "FSNode \<Rightarrow> BaseNodeMeta option" where
  "nodeMeta (FileNode nm bs sz m) = Some m"
| "nodeMeta (DirectoryNode nm ch m) = Some m"
| "nodeMeta ObjectPrototype = None"
| "nodeMeta (InheritedFunction k) = None"
| "nodeMeta (InheritedString x) = None"

text \<open>
  The own properties of \<^verbatim>\<open>n.children\<close>. The operations below read them from directories
  only: where the source would read \<^verbatim>\<open>children\<close> of another value, they raise the
  \<^verbatim>\<open>TypeError\<close> that \<^verbatim>\<open>Object.entries(undefined)\<close> raises.
\<close>

fun children :: "FSNode \<Rightarrow> (string \<times> FSNode) list" where
  "children (DirectoryNode nm ch m) = ch"
| "children (FileNode nm bs sz m) = []"
| "children ObjectPrototype = []"
| "children (InheritedFunction k) = []"
| "children (InheritedString x) = []"

text \<open>\<^verbatim>\<open>n.type === "directory"\<close>.\<close>

fun isDirectory :: "FSNode \<Rightarrow> bool" where
  "isDirectory (DirectoryNode nm ch m) = True"
| "isDirectory (FileNode nm bs sz m) = False"
| "isDirectory ObjectPrototype = False"
| "isDirectory (InheritedFunction k) = False"
| "isDirectory (InheritedString x) = False"

text \<open>
  The functions of \<^verbatim>\<open>Object.prototype\<close> in the Node.js runtime; the accessor
  \<^verbatim>\<open>__proto__\<close> is treated apart.
\<close>

definition inheritedFunctions :: "string list" where
  "inheritedFunctions =
     [''constructor'', ''__defineGetter__'', ''__defineSetter__'', ''hasOwnProperty'',
      ''__lookupGetter__'', ''__lookupSetter__'', ''isPrototypeOf'',
      ''propertyIsEnumerable'', ''toString'', ''valueOf'', ''toLocaleString'']"

text \<open>
  \<^verbatim>\<open>obj[k]\<close> on a \<^verbatim>\<open>children\<close> record, as the source uses it: tested for truth and
  then taken as a node. The own property comes first, then what \<^verbatim>\<open>Object.prototype\<close>
  provides; \<open>None\<close> stands for a falsy value (\<^verbatim>\<open>undefined\<close>, or the empty string
  under \<^verbatim>\<open>name\<close>). The first argument is the value of \<^verbatim>\<open>Object.prototype.name\<close>.
\<close>

definition childValue :: "string option \<Rightarrow> (string \<times> FSNode) list \<Rightarrow> string \<Rightarrow> FSNode option" where
  "childValue pn kvs k =
     (case map_of kvs k of
        Some v \<Rightarrow> Some v
      | None \<Rightarrow>
          if k = ''__proto__'' then Some ObjectPrototype
          else if k \<in> set inheritedFunctions then Some (InheritedFunction k)
          else if k = ''name'' then
            (case pn of
               None \<Rightarrow> None
             | Some x \<Rightarrow> if x = [] then None else Some (InheritedString x))
          else None)"

text \<open>\<^verbatim>\<open>obj[k] = v\<close>: an existing key keeps its place, a new key goes last.\<close>

fun setChild :: "(string \<times> FSNode) list \<Rightarrow> string \<Rightarrow> FSNode \<Rightarrow> (string \<times> FSNode) list" where
  "setChild [] k v = [(k, v)]"
| "setChild ((k', v') # kvs) k v =
     (if k' = k then (k, v) # kvs else (k', v') # setChild kvs k v)"

text \<open>\<^verbatim>\<open>delete obj[k]\<close>.\<close>

definition deleteChild :: "(string \<times> FSNode) list \<Rightarrow> string \<Rightarrow> (string \<times> FSNode) list" where
  "deleteChild kvs k = filter (\<lambda>kv. fst kv \<noteq> k) kvs"

definition defaultMode :: "bool \<Rightarrow> string" where
  "defaultMode isDir = (if isDir then ''rwxr-xr-x'' else ''rw-r--r--'')"

section \<open>Volume state and block allocator\<close>

text \<open>
  The fields of the class, and with them the one piece of the JavaScript realm that the
  operations of a volume can change: the value of \<^verbatim>\<open>Object.prototype.name\<close>
  (\<open>None\<close> while it is \<^verbatim>\<open>undefined\<close>). \<^verbatim>\<open>rename\<close> and \<^verbatim>\<open>move\<close> assign to
  \<^verbatim>\<open>node.name\<close>, and the node they hold can be \<^verbatim>\<open>Object.prototype\<close>.
\<close>

record FileSystem =
  name :: string
  totalBlocks :: nat
  blockSize :: nat
  freeBlockMap :: "nat list"
  blocks :: "string list"
  root :: FSNode
  prototypeName :: "string option"

definition createEmptyDir :: "string \<Rightarrow> int \<Rightarrow> FSNode" where
  "createEmptyDir nm t =
     DirectoryNode nm []
       \<lparr>createdAt = t, updatedAt = t, owner = ''root'', mode = defaultMode True\<rparr>"

text \<open>
  The constructor, with its three options already defaulted by the caller, in a realm
  where \<^verbatim>\<open>Object.prototype.name\<close> is still undefined.
\<close>

definition newFileSystem :: "string \<Rightarrow> nat \<Rightarrow> nat \<Rightarrow> int \<Rightarrow> FileSystem" where
  "newFileSystem nm n bs t =
     \<lparr>name = nm, totalBlocks = n, blockSize = bs,
      freeBlockMap = replicate n 0, blocks = replicate n [],
      root = createEmptyDir ''/'' t, prototypeName = None\<rparr>"

text \<open>\<^verbatim>\<open>xs.indexOf(v)\<close>, with \<open>None\<close> for \<^verbatim>\<open>-1\<close>.\<close>

fun indexOf :: "nat list \<Rightarrow> nat \<Rightarrow> nat option" where
  "indexOf [] v = None"
| "indexOf (x # xs) v = (if x = v then Some 0 else map_option Suc (indexOf xs v))"

text \<open>
  \<^verbatim>\<open>xs[i] = v\<close> on a JavaScript array: past the end the array grows, and the slots in
  between are holes. A hole reads as \<^verbatim>\<open>undefined\<close>; the first argument is the value
  that stands for it. In the block array every read is \<^verbatim>\<open>this.blocks[b] ?? ""\<close>, so a
  hole stands for the empty chunk; in the occupancy table a hole is neither found by
  \<^verbatim>\<open>indexOf(0)\<close> nor counted by \<^verbatim>\<open>v === 0\<close>, so it stands for a used flag.
\<close>

definition arraySet :: "'a \<Rightarrow> 'a list \<Rightarrow> nat \<Rightarrow> 'a \<Rightarrow> 'a list" where
  "arraySet hole xs i v =
     (if i < length xs then xs[i := v]
      else xs @ replicate (i - length xs) hole @ [v])"

text \<open>\<^verbatim>\<open>this.blocks[b] ?? ""\<close>.\<close>

definition blockAt :: "string list \<Rightarrow> nat \<Rightarrow> string" where
  "blockAt bs b = (if b < length bs then bs ! b else [])"

definition allocateBlock :: "FileSystem \<Rightarrow> nat option \<times> FileSystem" where
  "allocateBlock s =
     (case indexOf (freeBlockMap s) 0 of
        None \<Rightarrow> (None, s)
      | Some idx \<Rightarrow>
          (Some idx,
           s\<lparr>freeBlockMap := arraySet 1 (freeBlockMap s) idx 1,
             blocks := arraySet [] (blocks s) idx []\<rparr>))"

text \<open>
  \<^verbatim>\<open>freeBlock\<close> returns at once for an index outside the volume; of its two tests,
  \<^verbatim>\<open>idx < 0\<close> is never true of a natural number.
\<close>

definition freeBlock :: "nat \<Rightarrow> FileSystem \<Rightarrow> FileSystem" where
  "freeBlock idx s =
     (if idx \<ge> totalBlocks s then s
      else s\<lparr>freeBlockMap := arraySet 1 (freeBlockMap s) idx 0,
             blocks := arraySet [] (blocks s) idx []\<rparr>)"

definition getFreeBlockCount :: "FileSystem \<Rightarrow> nat" where
  "getFreeBlockCount s =
     foldl (\<lambda>sum v. sum + (if v = 0 then 1 else 0)) 0 (freeBlockMap s)"

text \<open>\<^verbatim>\<open>for (const b of bs) this.freeBlock(b)\<close>.\<close>

definition freeBlocks :: "nat list \<Rightarrow> FileSystem \<Rightarrow> FileSystem" where
  "freeBlocks bs s = fold freeBlock bs s"

text \<open>\<^verbatim>\<open>bs.map((b) => this.blocks[b] ?? "").join("")\<close>.\<close>

definition readBlocks :: "FileSystem \<Rightarrow> nat list \<Rightarrow> string" where
  "readBlocks s bs = concat (map (blockAt (blocks s)) bs)"

text \<open>
  The chunk-and-allocate loop that \<^verbatim>\<open>createFileNode\<close> and \<^verbatim>\<open>writeFile\<close> both
  contain: while the cursor is inside the content, take a block, store the next chunk in
  it and advance by the block size. When no block is left, the blocks taken so far are
  freed and the loop gives up (\<open>None\<close>; each caller throws its own message). The loop
  ends even for a block size of zero, because every round uses up a free block.
\<close>

function allocLoop :: "string \<Rightarrow> nat \<Rightarrow> nat list \<Rightarrow> FileSystem \<Rightarrow> nat list option \<times> FileSystem" where
  "allocLoop content cursor taken s =
     (if cursor < length content then
        (case allocateBlock s of
           (None, s1) \<Rightarrow> (None, freeBlocks taken s1)
         | (Some b, s1) \<Rightarrow>
             allocLoop content (cursor + blockSize s) (taken @ [b])
               (s1\<lparr>blocks := arraySet [] (blocks s1) b
                                (take (blockSize s) (drop cursor content))\<rparr>))
      else (Some taken, s))"
  by pat_completeness auto

lemma indexOf_Some: "indexOf xs v = Some i \<Longrightarrow> i < length xs \<and> xs ! i = v"
  by (induction xs arbitrary: i) (auto split: if_splits)

lemma indexOf_None: "indexOf xs v = None \<Longrightarrow> v \<notin> set xs"
  by (induction xs) (auto split: if_splits)

lemma count_list_update_less:
  "i < length xs \<Longrightarrow> xs ! i = (0::nat) \<Longrightarrow> count_list (xs[i := Suc 0]) 0 < count_list xs 0"
proof (induction xs arbitrary: i)
  case Nil
  then show ?case by simp
next
  case (Cons x xs)
  show ?case
  proof (cases i)
    case 0
    with Cons.prems show ?thesis by simp
  next
    case (Suc j)
    with Cons.prems Cons.IH [of j] show ?thesis by simp
  qed
qed

termination allocLoop
proof (relation "measure (\<lambda>(content, cursor, taken, s). count_list (freeBlockMap s) 0)")
  show "wf (measure (\<lambda>(content, cursor, taken, s). count_list (freeBlockMap s) 0))"
    by simp
next
  fix content :: string and cursor :: nat and taken :: "nat list" and s :: FileSystem
    and x s1 b
  assume "(x, s1) = allocateBlock s" and "x = Some b"
  then have "indexOf (freeBlockMap s) 0 = Some b"
    and "freeBlockMap s1 = arraySet 1 (freeBlockMap s) b 1"
    by (auto simp: allocateBlock_def split: option.splits)
  then show "((content, cursor + blockSize s, taken @ [b],
               s1\<lparr>blocks := arraySet [] (blocks s1) b
                                (take (blockSize s) (drop cursor content))\<rparr>),
              content, cursor, taken, s)
      \<in> measure (\<lambda>(content, cursor, taken, s). count_list (freeBlockMap s) 0)"
    using indexOf_Some [of "freeBlockMap s" 0 b]
    by (simp add: arraySet_def count_list_update_less)
qed

section \<open>Path resolution\<close>

text \<open>
  The loop of \<^verbatim>\<open>getNode\<close>: from the current node, follow the parts one by one. The
  first argument is the value of \<^verbatim>\<open>Object.prototype.name\<close>, the second the path as the
  caller wrote it, quoted in the error message. Only a directory has the type
  \<^verbatim>\<open>"directory"\<close>; of any other value \<^verbatim>\<open>current.type\<close> is something else.
\<close>

fun walkNode :: "string option \<Rightarrow> string \<Rightarrow> FSNode \<Rightarrow> string list \<Rightarrow> error + FSNode" where
  "walkNode pn p current [] = Inr current"
| "walkNode pn p current (part # parts) =
     (case current of
        DirectoryNode nm ch m \<Rightarrow>
          (case childValue pn ch part of
             None \<Rightarrow>
               Inl (Error (''Path does not exist: '' @ part @ '' (while resolving '' @ p @ '')''))
           | Some child \<Rightarrow> walkNode pn p child parts)
      | _ \<Rightarrow> Inl (Error (''Not a directory while resolving path: '' @ part)))"

definition getNode :: "FileSystem \<Rightarrow> string \<Rightarrow> error + FSNode" where
  "getNode s p =
     (case normalizePath p of
        Inl e \<Rightarrow> Inl e
      | Inr normalized \<Rightarrow>
          if normalized = ''/'' then Inr (root s)
          else walkNode (prototypeName s) p (root s) (pathParts normalized))"

text \<open>
  The source mutates a node through the reference that \<^verbatim>\<open>getNode\<close> or
  \<^verbatim>\<open>resolveParent\<close> returned. The tree has no back references and is reached from the
  root only, so a reference is modelled by the parts that were walked to obtain it, and a
  mutation by rebuilding the tree along these parts (\<open>updateAt\<close>). \<open>walkedParts p\<close>
  are the parts \<^verbatim>\<open>getNode(p)\<close> walks.
\<close>

definition walkedParts :: "string \<Rightarrow> string list" where
  "walkedParts p =
     (case normalizePath p of
        Inl e \<Rightarrow> []
      | Inr normalized \<Rightarrow> if normalized = ''/'' then [] else pathParts normalized)"

text \<open>
  The loop of \<^verbatim>\<open>resolveParent\<close> over all parts but the last; \<open>seen\<close> are the parts
  already passed, for the error message.
\<close>

fun walkDirs :: "string option \<Rightarrow> FSNode \<Rightarrow> string list \<Rightarrow> string list \<Rightarrow> error + FSNode" where
  "walkDirs pn current seen [] = Inr current"
| "walkDirs pn current seen (part # rest) =
     (case childValue pn (children current) part of
        Some (DirectoryNode nm ch m) \<Rightarrow>
          walkDirs pn (DirectoryNode nm ch m) (seen @ [part]) rest
      | _ \<Rightarrow> Inl (Error (''Directory not found: '' @ joinSlash (seen @ [part]))))"

text \<open>
  \<^verbatim>\<open>resolveParent\<close> returns the parent directory and the final name; the model returns
  the parts leading to the parent as well.
\<close>

definition resolveParent :: "FileSystem \<Rightarrow> string \<Rightarrow> error + (string list \<times> FSNode \<times> string)" where
  "resolveParent s p =
     (case normalizePath p of
        Inl e \<Rightarrow> Inl e
      | Inr normalized \<Rightarrow>
          let parts = pathParts normalized
          in if parts = [] then Inl (Error ''Invalid path - root has no parent'')
             else (case walkDirs (prototypeName s) (root s) [] (butlast parts) of
                     Inl e \<Rightarrow> Inl e
                   | Inr parent \<Rightarrow> Inr (butlast parts, parent, last parts)))"

text \<open>
  Rebuilding along parts follows own properties only: a value that a directory inherits
  is not part of the tree. The operations rebuild at a directory they have resolved.
\<close>

fun updateAt :: "string list \<Rightarrow> (FSNode \<Rightarrow> FSNode) \<Rightarrow> FSNode \<Rightarrow> FSNode"
  and updateIn :: "string \<Rightarrow> string list \<Rightarrow> (FSNode \<Rightarrow> FSNode) \<Rightarrow> (string \<times> FSNode) list
                    \<Rightarrow> (string \<times> FSNode) list" where
  "updateAt [] f n = f n"
| "updateAt (part # rest) f (DirectoryNode nm ch m) =
     DirectoryNode nm (updateIn part rest f ch) m"
| "updateAt (part # rest) f (FileNode nm bs sz m) = FileNode nm bs sz m"
| "updateAt (part # rest) f ObjectPrototype = ObjectPrototype"
| "updateAt (part # rest) f (InheritedFunction k) = InheritedFunction k"
| "updateAt (part # rest) f (InheritedString x) = InheritedString x"
| "updateIn part rest f [] = []"
| "updateIn part rest f ((k, c) # kcs) =
     (if k = part then (k, updateAt rest f c) # kcs
      else (k, c) # updateIn part rest f kcs)"

text \<open>
  The single assignments the operations make to a node they hold. Those to
  \<^verbatim>\<open>children\<close> and to \<^verbatim>\<open>meta.updatedAt\<close> are made to resolved directories, those to
  \<^verbatim>\<open>blocks\<close> and \<^verbatim>\<open>size\<close> to a node of type \<^verbatim>\<open>"file"\<close>.
\<close>

fun putChild :: "string \<Rightarrow> FSNode \<Rightarrow> FSNode \<Rightarrow> FSNode" where
  "putChild k v (DirectoryNode nm ch m) = DirectoryNode nm (setChild ch k v) m"
| "putChild k v (FileNode nm bs sz m) = FileNode nm bs sz m"
| "putChild k v ObjectPrototype = ObjectPrototype"
| "putChild k v (InheritedFunction f) = InheritedFunction f"
| "putChild k v (InheritedString x) = InheritedString x"

fun dropChild :: "string \<Rightarrow> FSNode \<Rightarrow> FSNode" where
  "dropChild k (DirectoryNode nm ch m) = DirectoryNode nm (deleteChild ch k) m"
| "dropChild k (FileNode nm bs sz m) = FileNode nm bs sz m"
| "dropChild k ObjectPrototype = ObjectPrototype"
| "dropChild k (InheritedFunction f) = InheritedFunction f"
| "dropChild k (InheritedString x) = InheritedString x"

fun touch :: "int \<Rightarrow> FSNode \<Rightarrow> FSNode" where
  "touch t (DirectoryNode nm ch m) = DirectoryNode nm ch (m\<lparr>updatedAt := t\<rparr>)"
| "touch t (FileNode nm bs sz m) = FileNode nm bs sz (m\<lparr>updatedAt := t\<rparr>)"
| "touch t ObjectPrototype = ObjectPrototype"
| "touch t (InheritedFunction f) = InheritedFunction f"
| "touch t (InheritedString x) = InheritedString x"

fun setContent :: "nat list \<Rightarrow> nat \<Rightarrow> int \<Rightarrow> FSNode \<Rightarrow> FSNode" where
  "setContent bs' sz' t (FileNode nm bs sz m) = FileNode nm bs' sz' (m\<lparr>updatedAt := t\<rparr>)"
| "setContent bs' sz' t (DirectoryNode nm ch m) = DirectoryNode nm ch m"
| "setContent bs' sz' t ObjectPrototype = ObjectPrototype"
| "setContent bs' sz' t (InheritedFunction f) = InheritedFunction f"
| "setContent bs' sz' t (InheritedString x) = InheritedString x"

text \<open>
  \<^verbatim>\<open>node.name = v\<close>, in the strict mode in which a class body runs; the result is the
  node and the new value of \<^verbatim>\<open>Object.prototype.name\<close>. A file or a directory receives
  the name (always a string: \<^verbatim>\<open>rename\<close> assigns its argument, \<^verbatim>\<open>move\<close> either a part
  of a path or the name the same node had). On \<^verbatim>\<open>Object.prototype\<close> the assignment
  defines the property that every object without a name of its own inherits from then
  on. The name of a function is not writable, and a string takes no properties: both
  assignments throw a \<^verbatim>\<open>TypeError\<close>.
\<close>

fun assignName :: "string option \<Rightarrow> FSNode \<Rightarrow> string option \<Rightarrow> error + (FSNode \<times> string option)" where
  "assignName v (FileNode nm bs sz m) pn = Inr (FileNode (propertyKey v) bs sz m, pn)"
| "assignName v (DirectoryNode nm ch m) pn = Inr (DirectoryNode (propertyKey v) ch m, pn)"
| "assignName v ObjectPrototype pn = Inr (ObjectPrototype, v)"
| "assignName v (InheritedFunction f) pn = Inl TypeError"
| "assignName v (InheritedString x) pn = Inl TypeError"

section \<open>Directory and file operations\<close>

text \<open>
  Every operation takes the volume and returns its result, or the error it throws,
  together with the volume it leaves behind. Optional arguments are options.
\<close>

definition createDirectory ::
    "FileSystem \<Rightarrow> string \<Rightarrow> string option \<Rightarrow> string option \<Rightarrow> int \<Rightarrow> (error + FSNode) \<times> FileSystem" where
  "createDirectory s p ownerOpt modeOpt t =
     (case normalizePath p of
        Inl e \<Rightarrow> (Inl e, s)
      | Inr normalized \<Rightarrow>
          if normalized = ''/'' then (Inl (Error ''Root already exists''), s)
          else (case resolveParent s normalized of
                  Inl e \<Rightarrow> (Inl e, s)
                | Inr (ppath, parent, nm) \<Rightarrow>
                    if childValue (prototypeName s) (children parent) nm \<noteq> None
                    then (Inl (Error ''Entry already exists''), s)
                    else
                      let dir = DirectoryNode nm []
                                  \<lparr>createdAt = t, updatedAt = t,
                                   owner = (case ownerOpt of None \<Rightarrow> ''root'' | Some x \<Rightarrow> x),
                                   mode = (case modeOpt of None \<Rightarrow> defaultMode True | Some x \<Rightarrow> x)\<rparr>
                      in (Inr dir,
                          s\<lparr>root := updateAt ppath (touch t \<circ> putChild nm dir) (root s)\<rparr>)))"

datatype entryType = File | Directory

text \<open>\<^verbatim>\<open>child.type\<close>, \<^verbatim>\<open>child.type === "file" ? child.size : undefined\<close>.\<close>

fun nodeType :: "FSNode \<Rightarrow> entryType option" where
  "nodeType (FileNode nm bs sz m) = Some File"
| "nodeType (DirectoryNode nm ch m) = Some Directory"
| "nodeType ObjectPrototype = None"
| "nodeType (InheritedFunction f) = None"
| "nodeType (InheritedString x) = None"

fun nodeSize :: "FSNode \<Rightarrow> nat option" where
  "nodeSize (FileNode nm bs sz m) = Some sz"
| "nodeSize (DirectoryNode nm ch m) = None"
| "nodeSize ObjectPrototype = None"
| "nodeSize (InheritedFunction f) = None"
| "nodeSize (InheritedString x) = None"

definition listDirectory ::
    "FileSystem \<Rightarrow> string
      \<Rightarrow> (error + (string \<times> entryType option \<times> nat option \<times> BaseNodeMeta option) list)
          \<times> FileSystem" where
  "listDirectory s p =
     (case getNode s p of
        Inl e \<Rightarrow> (Inl e, s)
      | Inr (DirectoryNode nm ch m) \<Rightarrow>
          (Inr (map (\<lambda>(k, child). (k, nodeType child, nodeSize child, nodeMeta child)) ch), s)
      | Inr other \<Rightarrow> (Inl (Error ''Not a directory''), s))"

definition createFileNode ::
    "FileSystem \<Rightarrow> string \<Rightarrow> string \<Rightarrow> string \<Rightarrow> string option \<Rightarrow> int \<Rightarrow> (error + FSNode) \<times> FileSystem" where
  "createFileNode s nm content own modeOpt t =
     (case allocLoop content 0 [] s of
        (None, s') \<Rightarrow> (Inl (Error ''Disk full while creating file''), s')
      | (Some bs, s') \<Rightarrow>
          (Inr (FileNode nm bs (length content)
                  \<lparr>createdAt = t, updatedAt = t, owner = own,
                   mode = (case modeOpt of None \<Rightarrow> defaultMode False | Some x \<Rightarrow> x)\<rparr>),
           s'))"

text \<open>
  \<^verbatim>\<open>createFile\<close> refuses a name under which \<^verbatim>\<open>parent.children[name]\<close> is truthy,
  whether the directory holds an entry of that name or inherits the property.
\<close>

definition createFile ::
    "FileSystem \<Rightarrow> string \<Rightarrow> string \<Rightarrow> string option \<Rightarrow> string option \<Rightarrow> int
      \<Rightarrow> (error + FSNode) \<times> FileSystem" where
  "createFile s p content ownerOpt modeOpt t =
     (case normalizePath p of
        Inl e \<Rightarrow> (Inl e, s)
      | Inr normalized \<Rightarrow>
          (case resolveParent s normalized of
             Inl e \<Rightarrow> (Inl e, s)
           | Inr (ppath, parent, nm) \<Rightarrow>
               if childValue (prototypeName s) (children parent) nm \<noteq> None
               then (Inl (Error ''Entry already exists''), s)
               else (case createFileNode s nm content
                            (case ownerOpt of None \<Rightarrow> ''root'' | Some x \<Rightarrow> x) modeOpt t of
                       (Inl e, s') \<Rightarrow> (Inl e, s')
                     | (Inr node, s') \<Rightarrow>
                         (Inr node,
                          s'\<lparr>root := updateAt ppath (touch t \<circ> putChild nm node) (root s')\<rparr>))))"

definition readFile :: "FileSystem \<Rightarrow> string \<Rightarrow> (error + string) \<times> FileSystem" where
  "readFile s p =
     (case getNode s p of
        Inl e \<Rightarrow> (Inl e, s)
      | Inr (FileNode nm bs sz m) \<Rightarrow> (Inr (readBlocks s bs), s)
      | Inr other \<Rightarrow> (Inl (Error ''Not a file''), s))"

text \<open>
  \<^verbatim>\<open>writeFile\<close> normalizes the path and hands the result to \<^verbatim>\<open>getNode\<close>, which
  normalizes once more. When the allocation loop gives up, the function throws before
  it reaches the three assignments to the node.
\<close>

definition writeFile :: "FileSystem \<Rightarrow> string \<Rightarrow> string \<Rightarrow> int \<Rightarrow> (error + FSNode) \<times> FileSystem" where
  "writeFile s p content t =
     (case normalizePath p of
        Inl e \<Rightarrow> (Inl e, s)
      | Inr normalized \<Rightarrow>
          (case getNode s normalized of
             Inl e \<Rightarrow> (Inl e, s)
           | Inr (FileNode nm bs sz m) \<Rightarrow>
               (case allocLoop content 0 [] (freeBlocks bs s) of
                  (None, s') \<Rightarrow> (Inl (Error ''Disk full while writing file''), s')
                | (Some newBlocks, s') \<Rightarrow>
                    (Inr (setContent newBlocks (length content) t (FileNode nm bs sz m)),
                     s'\<lparr>root := updateAt (walkedParts normalized)
                                   (setContent newBlocks (length content) t) (root s')\<rparr>))
           | Inr other \<Rightarrow> (Inl (Error ''Not a file''), s)))"

definition appendFile :: "FileSystem \<Rightarrow> string \<Rightarrow> string \<Rightarrow> int \<Rightarrow> (error + FSNode) \<times> FileSystem" where
  "appendFile s p extra t =
     (case getNode s p of
        Inl e \<Rightarrow> (Inl e, s)
      | Inr (FileNode nm bs sz m) \<Rightarrow>
          (case readFile s p of
             (Inl e, s') \<Rightarrow> (Inl e, s')
           | (Inr current, s') \<Rightarrow> writeFile s' p (current @ extra) t)
      | Inr other \<Rightarrow> (Inl (Error ''Not a file''), s))"

text \<open>
  \<^verbatim>\<open>deleteRec\<close>: free the blocks of every file below the node, children in order. A
  value that is neither file nor directory takes the branch of the directory, where
  \<^verbatim>\<open>Object.values\<close> of its missing \<^verbatim>\<open>children\<close> throws a \<^verbatim>\<open>TypeError\<close>; what has
  been freed by then stays free.
\<close>

fun deleteRec :: "FSNode \<Rightarrow> FileSystem \<Rightarrow> error option \<times> FileSystem"
  and deleteRecChildren :: "(string \<times> FSNode) list \<Rightarrow> FileSystem \<Rightarrow> error option \<times> FileSystem" where
  "deleteRec (FileNode nm bs sz m) s = (None, freeBlocks bs s)"
| "deleteRec (DirectoryNode nm ch m) s = deleteRecChildren ch s"
| "deleteRec ObjectPrototype s = (Some TypeError, s)"
| "deleteRec (InheritedFunction f) s = (Some TypeError, s)"
| "deleteRec (InheritedString x) s = (Some TypeError, s)"
| "deleteRecChildren [] s = (None, s)"
| "deleteRecChildren ((k, c) # kcs) s =
     (case deleteRec c s of
        (Some e, s') \<Rightarrow> (Some e, s')
      | (None, s') \<Rightarrow> deleteRecChildren kcs s')"

definition deleteNode :: "FileSystem \<Rightarrow> string \<Rightarrow> int \<Rightarrow> (error + bool) \<times> FileSystem" where
  "deleteNode s p t =
     (case normalizePath p of
        Inl e \<Rightarrow> (Inl e, s)
      | Inr normalized \<Rightarrow>
          if normalized = ''/'' then (Inl (Error ''Cannot delete root''), s)
          else (case resolveParent s normalized of
                  Inl e \<Rightarrow> (Inl e, s)
                | Inr (ppath, parent, nm) \<Rightarrow>
                    (case childValue (prototypeName s) (children parent) nm of
                       None \<Rightarrow> (Inl (Error ''Path not found''), s)
                     | Some node \<Rightarrow>
                         (case deleteRec node s of
                            (Some e, s') \<Rightarrow> (Inl e, s')
                          | (None, s') \<Rightarrow>
                              (Inr True,
                               s'\<lparr>root := updateAt ppath (touch t \<circ> dropChild nm) (root s')\<rparr>)))))"

text \<open>
  \<^verbatim>\<open>rename\<close> deletes the old entry before it assigns the name, so an assignment that
  throws leaves the volume with the entry deleted.
\<close>

definition rename :: "FileSystem \<Rightarrow> string \<Rightarrow> string \<Rightarrow> int \<Rightarrow> (error + FSNode) \<times> FileSystem" where
  "rename s p newName t =
     (case normalizePath p of
        Inl e \<Rightarrow> (Inl e, s)
      | Inr normalized \<Rightarrow>
          (case resolveParent s normalized of
             Inl e \<Rightarrow> (Inl e, s)
           | Inr (ppath, parent, nm) \<Rightarrow>
               (case childValue (prototypeName s) (children parent) nm of
                  None \<Rightarrow> (Inl (Error ''Path not found''), s)
                | Some node \<Rightarrow>
                    if childValue (prototypeName s) (children parent) newName \<noteq> None
                    then (Inl (Error ''Destination name already exists''), s)
                    else
                      (case assignName (Some newName) node (prototypeName s) of
                         Inl e \<Rightarrow> (Inl e, s\<lparr>root := updateAt ppath (dropChild nm) (root s)\<rparr>)
                       | Inr (node', pn') \<Rightarrow>
                           (Inr node',
                            s\<lparr>root := updateAt ppath
                                          (touch t \<circ> putChild newName node' \<circ> dropChild nm)
                                          (root s),
                              prototypeName := pn'\<rparr>)))))"

section \<open>Move and copy\<close>

text \<open>
  The destination of \<^verbatim>\<open>move\<close> and \<^verbatim>\<open>copy\<close>. The source tries
  \<^verbatim>\<open>getNode(dn)\<close>: a directory found there receives the node under the node's own
  name (which can be undefined when the node is none), anything else found there makes
  it throw \<^verbatim>\<open>Destination exists and is not a directory\<close>.
  Both the failure of \<^verbatim>\<open>getNode\<close> and this throw happen inside the \<^verbatim>\<open>try\<close> block,
  and the \<^verbatim>\<open>catch\<close> clause, which has no binding and does not rethrow, answers either
  by \<^verbatim>\<open>resolveParent(dn)\<close>.
\<close>

definition tryExisting ::
    "FileSystem \<Rightarrow> string \<Rightarrow> string option \<Rightarrow> error + (string list \<times> FSNode \<times> string option)" where
  "tryExisting s dn srcName =
     (case getNode s dn of
        Inl e \<Rightarrow> Inl e
      | Inr (DirectoryNode nm ch m) \<Rightarrow> Inr (walkedParts dn, DirectoryNode nm ch m, srcName)
      | Inr other \<Rightarrow> Inl (Error ''Destination exists and is not a directory''))"

definition destination ::
    "FileSystem \<Rightarrow> string \<Rightarrow> string option \<Rightarrow> error + (string list \<times> FSNode \<times> string option)" where
  "destination s dn srcName =
     (case tryExisting s dn srcName of
        Inr found \<Rightarrow> Inr found
      | Inl caught \<Rightarrow>
          (case resolveParent s dn of
             Inl e \<Rightarrow> Inl e
           | Inr (ppath, parent, nm) \<Rightarrow> Inr (ppath, parent, Some nm)))"

text \<open>
  \<^verbatim>\<open>move\<close> detaches the node from its parent and attaches it to the destination
  directory, which it found before detaching. When that directory lies inside the moved
  node it is no longer reachable from the root after the detachment; rebuilding along
  its parts then changes nothing, as the assignment in the source changes nothing that
  the root still reaches. The name is assigned after the detachment, so an assignment
  that throws leaves the volume with the node detached.
\<close>

definition move :: "FileSystem \<Rightarrow> string \<Rightarrow> string \<Rightarrow> int \<Rightarrow> (error + FSNode) \<times> FileSystem" where
  "move s src dst t =
     (case normalizePath src of
        Inl e \<Rightarrow> (Inl e, s)
      | Inr sn \<Rightarrow>
     (case normalizePath dst of
        Inl e \<Rightarrow> (Inl e, s)
      | Inr dn \<Rightarrow>
     (case resolveParent s sn of
        Inl e \<Rightarrow> (Inl e, s)
      | Inr (spath, sParent, sName) \<Rightarrow>
     (case childValue (prototypeName s) (children sParent) sName of
        None \<Rightarrow> (Inl (Error ''Source not found''), s)
      | Some node \<Rightarrow>
     (case destination s dn (nodeName (prototypeName s) node) of
        Inl e \<Rightarrow> (Inl e, s)
      | Inr (dpath, destParent, destName) \<Rightarrow>
          if childValue (prototypeName s) (children destParent) (propertyKey destName) \<noteq> None
          then (Inl (Error ''Destination entry already exists''), s)
          else
            let detached = updateAt spath (dropChild sName) (root s)
            in (case assignName destName node (prototypeName s) of
                  Inl e \<Rightarrow> (Inl e, s\<lparr>root := detached\<rparr>)
                | Inr (node', pn') \<Rightarrow>
                    let attached = updateAt dpath (putChild (propertyKey destName) node') detached;
                        stamped = updateAt dpath (touch t) (updateAt spath (touch t) attached)
                    in (Inr node', s\<lparr>root := stamped, prototypeName := pn'\<rparr>)))))))"

text \<open>
  \<^verbatim>\<open>cloneRec\<close>, the closure inside \<^verbatim>\<open>copy\<close>. It names every clone
  \<^verbatim>\<open>destName\<close>, the clone of a child as well, and stores a child's clone under
  \<^verbatim>\<open>childClone.name\<close>; the key \<^verbatim>\<open>k\<close> of the loop is not used. The third
  argument of \<open>cloneChildren\<close> is the \<^verbatim>\<open>children\<close> record of the new directory as
  built so far. An exception from a nested allocation leaves the loop and the function.
  A value that is neither file nor directory takes the branch of the directory, where
  \<^verbatim>\<open>Object.entries\<close> of its missing \<^verbatim>\<open>children\<close> throws a \<^verbatim>\<open>TypeError\<close>.
\<close>

fun cloneRec :: "string \<Rightarrow> int \<Rightarrow> FSNode \<Rightarrow> FileSystem \<Rightarrow> (error + FSNode) \<times> FileSystem"
  and cloneChildren :: "string \<Rightarrow> int \<Rightarrow> (string \<times> FSNode) list \<Rightarrow> (string \<times> FSNode) list
        \<Rightarrow> FileSystem \<Rightarrow> (error + (string \<times> FSNode) list) \<times> FileSystem" where
  "cloneRec destName t (FileNode nm bs sz m) s =
     createFileNode s destName (readBlocks s bs) (owner m) (Some (mode m)) t"
| "cloneRec destName t (DirectoryNode nm ch m) s =
     (case cloneChildren destName t ch [] s of
        (Inl e, s') \<Rightarrow> (Inl e, s')
      | (Inr ch', s') \<Rightarrow>
          (Inr (DirectoryNode destName ch' (m\<lparr>createdAt := t, updatedAt := t\<rparr>)), s'))"
| "cloneRec destName t ObjectPrototype s = (Inl TypeError, s)"
| "cloneRec destName t (InheritedFunction f) s = (Inl TypeError, s)"
| "cloneRec destName t (InheritedString x) s = (Inl TypeError, s)"
| "cloneChildren destName t [] built s = (Inr built, s)"
| "cloneChildren destName t ((k, child) # rest) built s =
     (case cloneRec destName t child s of
        (Inl e, s') \<Rightarrow> (Inl e, s')
      | (Inr childClone, s') \<Rightarrow>
          cloneChildren destName t rest
            (setChild built (propertyKey (nodeName (prototypeName s') childClone)) childClone) s')"

definition copy :: "FileSystem \<Rightarrow> string \<Rightarrow> string \<Rightarrow> int \<Rightarrow> (error + FSNode) \<times> FileSystem" where
  "copy s src dst t =
     (case getNode s src of
        Inl e \<Rightarrow> (Inl e, s)
      | Inr node \<Rightarrow>
     (case normalizePath dst of
        Inl e \<Rightarrow> (Inl e, s)
      | Inr dn \<Rightarrow>
     (case destination s dn (nodeName (prototypeName s) node) of
        Inl e \<Rightarrow> (Inl e, s)
      | Inr (dpath, destParent, destName) \<Rightarrow>
          if childValue (prototypeName s) (children destParent) (propertyKey destName) \<noteq> None
          then (Inl (Error ''Destination entry already exists''), s)
          else (case cloneRec (propertyKey destName) t node s of
                  (Inl e, s') \<Rightarrow> (Inl e, s')
                | (Inr copied, s') \<Rightarrow>
                    (Inr copied,
                     s'\<lparr>root := updateAt dpath (touch t \<circ> putChild (propertyKey destName) copied)
                                   (root s')\<rparr>)))))"

section \<open>Stat, search and format\<close>

datatype statResult =
    FileStat string nat "nat list" BaseNodeMeta
  | DirectoryStat string nat BaseNodeMeta

text \<open>
  \<^verbatim>\<open>stat\<close> takes whatever is no file for a directory, and
  \<^verbatim>\<open>Object.keys(node.children)\<close> throws a \<^verbatim>\<open>TypeError\<close> when there are no children.
\<close>

definition stat :: "FileSystem \<Rightarrow> string \<Rightarrow> (error + statResult) \<times> FileSystem" where
  "stat s p =
     (case getNode s p of
        Inl e \<Rightarrow> (Inl e, s)
      | Inr (FileNode nm bs sz m) \<Rightarrow> (Inr (FileStat nm sz bs m), s)
      | Inr (DirectoryNode nm ch m) \<Rightarrow> (Inr (DirectoryStat nm (length ch) m), s)
      | Inr other \<Rightarrow> (Inl TypeError, s))"

text \<open>
  \<^verbatim>\<open>walk\<close>, the closure inside \<^verbatim>\<open>search\<close>, returning what it pushes to
  \<^verbatim>\<open>out\<close>. The predicate is a function of the node and its path: it neither throws
  nor writes.
\<close>

fun searchWalk :: "(FSNode \<Rightarrow> string \<Rightarrow> bool) \<Rightarrow> FSNode \<Rightarrow> string \<Rightarrow> string list"
  and searchChildren :: "(FSNode \<Rightarrow> string \<Rightarrow> bool) \<Rightarrow> (string \<times> FSNode) list \<Rightarrow> string \<Rightarrow> string list" where
  "searchWalk predicate (FileNode nm bs sz m) curPath =
     (if predicate (FileNode nm bs sz m) curPath then [curPath] else [])"
| "searchWalk predicate (DirectoryNode nm ch m) curPath =
     (if predicate (DirectoryNode nm ch m) curPath then [curPath] else [])
     @ searchChildren predicate ch curPath"
| "searchWalk predicate ObjectPrototype curPath =
     (if predicate ObjectPrototype curPath then [curPath] else [])"
| "searchWalk predicate (InheritedFunction f) curPath =
     (if predicate (InheritedFunction f) curPath then [curPath] else [])"
| "searchWalk predicate (InheritedString x) curPath =
     (if predicate (InheritedString x) curPath then [curPath] else [])"
| "searchChildren predicate [] curPath = []"
| "searchChildren predicate ((k, child) # rest) curPath =
     searchWalk predicate child (posix_join curPath k) @ searchChildren predicate rest curPath"

definition search ::
    "FileSystem \<Rightarrow> string \<Rightarrow> (FSNode \<Rightarrow> string \<Rightarrow> bool) \<Rightarrow> (error + string list) \<times> FileSystem" where
  "search s rootPath predicate =
     (case getNode s rootPath of
        Inl e \<Rightarrow> (Inl e, s)
      | Inr (DirectoryNode nm ch m) \<Rightarrow>
          (case normalizePath rootPath of
             Inl e \<Rightarrow> (Inl e, s)
           | Inr np \<Rightarrow> (Inr (searchWalk predicate (DirectoryNode nm ch m) np), s))
      | Inr other \<Rightarrow> (Inl (Error ''search root must be directory''), s))"

text \<open>\<^verbatim>\<open>format\<close>; the first argument tells whether \<^verbatim>\<open>opts?.zeroBlocks\<close> is truthy.\<close>

definition format :: "bool \<Rightarrow> int \<Rightarrow> FileSystem \<Rightarrow> FileSystem" where
  "format zeroBlocks t s =
     s\<lparr>freeBlockMap := replicate (totalBlocks s) 0,
       blocks := (if zeroBlocks then replicate (totalBlocks s) [] else blocks s),
       root := createEmptyDir ''/'' t\<rparr>"

section \<open>Mount table\<close>

text \<open>
  The mount table of \<^verbatim>\<open>VFSManager\<close>: pairs of mount point and volume.
  \<^verbatim>\<open>Array.prototype.sort\<close> is stable; \<open>sortMounts\<close> is a stable insertion sort on the
  comparator \<^verbatim>\<open>b.mountPoint.length - a.mountPoint.length\<close>.
\<close>

type_synonym mounts = "(string \<times> FileSystem) list"

fun insertMount :: "string \<times> FileSystem \<Rightarrow> mounts \<Rightarrow> mounts" where
  "insertMount a [] = [a]"
| "insertMount a (b # bs) =
     (if length (fst b) \<le> length (fst a) then a # b # bs else b # insertMount a bs)"

definition sortMounts :: "mounts \<Rightarrow> mounts" where
  "sortMounts ms = foldr insertMount ms []"

definition newVFSManager :: "int \<Rightarrow> mounts" where
  "newVFSManager t = sortMounts [(''/'', newFileSystem ''root'' 4096 4096 t)]"

definition mount :: "mounts \<Rightarrow> FileSystem \<Rightarrow> string \<Rightarrow> error + mounts" where
  "mount ms fsys mountPoint =
     (case normalizePath mountPoint of
        Inl e \<Rightarrow> Inl e
      | Inr mp \<Rightarrow>
          if mp \<in> set (map fst ms) then Inl (Error ''Mount point already used'')
          else Inr (sortMounts (ms @ [(mp, fsys)])))"

definition unmount :: "mounts \<Rightarrow> string \<Rightarrow> error + mounts" where
  "unmount ms mountPoint =
     (case normalizePath mountPoint of
        Inl e \<Rightarrow> Inl e
      | Inr mp \<Rightarrow>
          (case find (\<lambda>m. fst m = mp) ms of
             None \<Rightarrow> Inl (Error ''Mount point not found'')
           | Some m \<Rightarrow>
               if fst m = ''/'' then Inl (Error ''Cannot unmount root'')
               else Inr (remove1 m ms)))"

text \<open>
  The test of the loop in \<^verbatim>\<open>resolve\<close>: the root entry is skipped, any other entry
  matches when the path equals its mount point or starts with the mount point and a
  separator.
\<close>

definition mountMatches :: "string \<Rightarrow> string \<Rightarrow> bool" where
  "mountMatches mountPoint p =
     (mountPoint \<noteq> ''/'' \<and> (p = mountPoint \<or> startsWith p (mountPoint @ ''/'')))"

text \<open>
  \<^verbatim>\<open>resolve\<close> returns the volume, the inner path and the mount point. The inner path of
  a match is \<^verbatim>\<open>normalizePath(p.slice(m.mountPoint.length) || "/")\<close>.
\<close>

definition resolve :: "mounts \<Rightarrow> string \<Rightarrow> error + (FileSystem \<times> string \<times> string)" where
  "resolve ms vfsPath =
     (case normalizePath vfsPath of
        Inl e \<Rightarrow> Inl e
      | Inr p \<Rightarrow>
          (case find (\<lambda>m. mountMatches (fst m) p) ms of
             Some m \<Rightarrow>
               (let rest = drop (length (fst m)) p;
                    inner = (if rest = [] then ''/'' else rest)
                in case normalizePath inner of
                     Inl e \<Rightarrow> Inl e
                   | Inr innerPath \<Rightarrow> Inr (snd m, innerPath, fst m))
           | None \<Rightarrow>
               (case find (\<lambda>m. fst m = ''/'') ms of
                  None \<Rightarrow> Inl TypeError
                | Some rootMount \<Rightarrow> Inr (snd rootMount, p, ''/''))))"

text \<open>The order \<^verbatim>\<open>sortMounts\<close> establishes: mount points by length, longest first.\<close>

definition sortedMounts :: "mounts \<Rightarrow> bool" where
  "sortedMounts ms = sorted_wrt (\<lambda>a b. length (fst b) \<le> length (fst a)) ms"

text \<open>What \<^verbatim>\<open>resolve\<close> normalizes after a match: the path without the mount point.\<close>

definition stripMount :: "string \<Rightarrow> string \<Rightarrow> string" where
  "stripMount mountPoint p =
     (if drop (length mountPoint) p = [] then ''/'' else drop (length mountPoint) p)"

text \<open>The name of the volume \<^verbatim>\<open>resolve\<close> returns, with the inner path and the mount point.\<close>

definition resolvedTo :: "mounts \<Rightarrow> string \<Rightarrow> error + (string \<times> string \<times> string)" where
  "resolvedTo ms vfsPath =
     (case resolve ms vfsPath of
        Inl e \<Rightarrow> Inl e
      | Inr (fsys, innerPath, mountPoint) \<Rightarrow> Inr (name fsys, innerPath, mountPoint))"

section \<open>Well-formed volumes\<close>

text \<open>
  The constructor builds both arrays with \<^verbatim>\<open>totalBlocks\<close> entries, and no operation
  changes their length; a volume of this shape is well formed.
\<close>

definition wellFormed :: "FileSystem \<Rightarrow> bool" where
  "wellFormed s = (length (freeBlockMap s) = totalBlocks s \<and> length (blocks s) = totalBlocks s)"

text \<open>The volume after one round of the allocation loop has stored a chunk in block \<open>b\<close>.\<close>

definition stored :: "FileSystem \<Rightarrow> nat \<Rightarrow> string \<Rightarrow> FileSystem" where
  "stored s b chunk =
     s\<lparr>freeBlockMap := (freeBlockMap s)[b := Suc 0], blocks := (blocks s)[b := chunk]\<rparr>"

section \<open>Free blocks and reachable volumes\<close>

text \<open>
  The property of a volume that every block marked free holds the empty chunk,
  and the same together with well-formedness.
\<close>

definition freeBlocksEmpty :: "FileSystem \<Rightarrow> bool" where
  "freeBlocksEmpty s =
     list_all (\<lambda>i. freeBlockMap s ! i = 0 \<longrightarrow> blockAt (blocks s) i = [])
       [0..<length (freeBlockMap s)]"

definition cleanVolume :: "FileSystem \<Rightarrow> bool" where
  "cleanVolume s = (wellFormed s \<and> freeBlocksEmpty s)"

text \<open>
  The volumes that the constructor and the operations of a volume produce; an operation
  that throws still leaves the volume it has worked on. \<^verbatim>\<open>format\<close> is taken with the
  \<^verbatim>\<open>zeroBlocks\<close> option. The last rule covers the other volumes of the process:
  \<^verbatim>\<open>Object.prototype\<close> is shared, and a rename or move in any volume can give
  \<^verbatim>\<open>Object.prototype.name\<close> any value.
\<close>

inductive reachable :: "FileSystem \<Rightarrow> bool" where
  constructed: "reachable (newFileSystem nm n bs t)"
| allocated: "reachable s \<Longrightarrow> reachable (snd (allocateBlock s))"
| freed: "reachable s \<Longrightarrow> reachable (freeBlock idx s)"
| createdDirectory: "reachable s \<Longrightarrow> reachable (snd (createDirectory s p ownerOpt modeOpt t))"
| createdFile: "reachable s \<Longrightarrow> reachable (snd (createFile s p content ownerOpt modeOpt t))"
| written: "reachable s \<Longrightarrow> reachable (snd (writeFile s p content t))"
| appended: "reachable s \<Longrightarrow> reachable (snd (appendFile s p extra t))"
| deleted: "reachable s \<Longrightarrow> reachable (snd (deleteNode s p t))"
| renamed: "reachable s \<Longrightarrow> reachable (snd (rename s p newName t))"
| moved: "reachable s \<Longrightarrow> reachable (snd (move s src dst t))"
| copied: "reachable s \<Longrightarrow> reachable (snd (copy s src dst t))"
| formatted: "reachable s \<Longrightarrow> reachable (format True t s)"
| polluted: "reachable s \<Longrightarrow> reachable (s\<lparr>prototypeName := v\<rparr>)"

section \<open>Volumes and mount tables used as examples\<close>

text \<open>A volume of one block of four bytes, empty and then filled by one file.\<close>

definition oneBlockVolume :: FileSystem where
  "oneBlockVolume = newFileSystem ''disk'' 1 4 0"

definition fullVolume :: FileSystem where
  "fullVolume = snd (createFile oneBlockVolume ''/x'' ''abc'' None None 1)"

text \<open>
  The full volume after a write that failed for lack of blocks, and the same after a
  second file has been created in it.
\<close>

definition failedWrite :: FileSystem where
  "failedWrite = snd (writeFile fullVolume ''/x'' ''abcde'' 2)"

definition blockShared :: FileSystem where
  "blockShared = snd (createFile failedWrite ''/y'' ''yy'' None None 3)"

text \<open>
  A volume of eight blocks of four bytes: with two files in the root, and with a
  directory that holds two files.
\<close>

definition eightBlockVolume :: FileSystem where
  "eightBlockVolume = newFileSystem ''disk'' 8 4 0"

definition twoFiles :: FileSystem where
  "twoFiles =
     snd (createFile (snd (createFile eightBlockVolume ''/a'' ''aaaaa'' None None 1))
            ''/b'' ''bb'' None None 2)"

text \<open>
  The volume with two files after \<^verbatim>\<open>rename("/__proto__", "p")\<close>: the call finds
  \<^verbatim>\<open>Object.prototype\<close> under the inherited name, names it \<^verbatim>\<open>p\<close> and stores it in
  the root.
\<close>

definition prototypeStored :: FileSystem where
  "prototypeStored = snd (rename twoFiles ''/__proto__'' ''p'' 3)"

definition dirWithTwoFiles :: FileSystem where
  "dirWithTwoFiles =
     snd (createFile
            (snd (createFile (snd (createDirectory eightBlockVolume ''/a'' None None 1))
                    ''/a/x'' ''xx'' None None 2))
            ''/a/y'' ''yyyyy'' None None 3)"

text \<open>
  A volume in which a directory has been renamed to \<^verbatim>\<open>..\<close>: the root holds the
  directory \<^verbatim>\<open>..\<close> with a file \<^verbatim>\<open>a\<close> (content \<^verbatim>\<open>y\<close>), and a file \<^verbatim>\<open>a\<close>
  of its own (content \<^verbatim>\<open>x\<close>).
\<close>

definition dotDotVolume :: FileSystem where
  "dotDotVolume =
     snd (createFile
            (snd (rename
                    (snd (createFile (snd (createDirectory eightBlockVolume ''/d'' None None 1))
                            ''/d/a'' ''y'' None None 2))
                    ''/d'' ''..'' 3))
            ''/a'' ''x'' None None 4)"

text \<open>
  The manager's table after mounting a one-block volume named \<^verbatim>\<open>usb\<close> at
  \<^verbatim>\<open>/mnt/usb\<close>, and after mounting it at \<^verbatim>\<open>..\<close> instead.
\<close>

definition usbMounts :: mounts where
  "usbMounts =
     (case mount (newVFSManager 0) (newFileSystem ''usb'' 1 4 0) ''/mnt/usb'' of
        Inl e \<Rightarrow> [] | Inr ms \<Rightarrow> ms)"

definition dotDotMounts :: mounts where
  "dotDotMounts =
     (case mount (newVFSManager 0) (newFileSystem ''usb'' 1 4 0) ''..'' of
        Inl e \<Rightarrow> [] | Inr ms \<Rightarrow> ms)"

section \<open>Properties of the allocator\<close>

lemma getFreeBlockCount_count: "getFreeBlockCount s = count_list (freeBlockMap s) 0"
proof -
  have "foldl (\<lambda>sum v. sum + (if v = 0 then 1 else 0)) a xs = a + count_list xs (0::nat)"
    for a :: nat and xs
    by (induction xs arbitrary: a) auto
  then show ?thesis by (simp add: getFreeBlockCount_def)
qed

lemma count_list_update_used:
  "i < length xs \<Longrightarrow> xs ! i = (0::nat) \<Longrightarrow> Suc (count_list (xs[i := Suc 0]) 0) = count_list xs 0"
proof (induction xs arbitrary: i)
  case Nil
  then show ?case by simp
next
  case (Cons x xs)
  show ?case
  proof (cases i)
    case 0
    with Cons.prems show ?thesis by simp
  next
    case (Suc j)
    with Cons.prems Cons.IH [of j] show ?thesis by simp
  qed
qed

lemma count_list_update_free:
  "i < length xs \<Longrightarrow> count_list xs (0::nat) \<le> count_list (xs[i := 0]) 0"
proof (induction xs arbitrary: i)
  case Nil
  then show ?case by simp
next
  case (Cons x xs)
  show ?case
  proof (cases i)
    case 0
    then show ?thesis by simp
  next
    case (Suc j)
    with Cons.prems Cons.IH [of j] show ?thesis by simp
  qed
qed

lemma indexOf_exists: "v \<in> set xs \<Longrightarrow> \<exists>i. indexOf xs v = Some i"
  by (induction xs) auto

lemma count_list_pos_mem: "0 < count_list xs v \<Longrightarrow> v \<in> set xs"
  by (induction xs) (auto split: if_splits)

lemma allocateBlock_Some:
  assumes "wellFormed s" and "indexOf (freeBlockMap s) 0 = Some b"
  shows "snd (allocateBlock s) =
           s\<lparr>freeBlockMap := (freeBlockMap s)[b := Suc 0], blocks := (blocks s)[b := []]\<rparr>"
  using assms indexOf_Some [of "freeBlockMap s" 0 b]
  by (simp add: allocateBlock_def arraySet_def wellFormed_def)

lemma allocateBlock_None:
  "indexOf (freeBlockMap s) 0 = None \<Longrightarrow> snd (allocateBlock s) = s"
  by (simp add: allocateBlock_def)

lemma freeBlock_in_range:
  assumes "wellFormed s" and "idx < totalBlocks s"
  shows "freeBlock idx s = s\<lparr>freeBlockMap := (freeBlockMap s)[idx := 0], blocks := (blocks s)[idx := []]\<rparr>"
  using assms by (simp add: freeBlock_def arraySet_def wellFormed_def)

lemma freeBlock_wellFormed: "wellFormed s \<Longrightarrow> wellFormed (freeBlock idx s)"
  by (cases "idx < totalBlocks s") (simp_all add: freeBlock_def arraySet_def wellFormed_def)

lemma freeBlock_frame:
  "totalBlocks (freeBlock idx s) = totalBlocks s \<and> blockSize (freeBlock idx s) = blockSize s
   \<and> root (freeBlock idx s) = root s \<and> name (freeBlock idx s) = name s
   \<and> prototypeName (freeBlock idx s) = prototypeName s"
  by (simp add: freeBlock_def)

lemma freeBlocks_wellFormed: "wellFormed s \<Longrightarrow> wellFormed (freeBlocks bs s)"
  unfolding freeBlocks_def
  by (induction bs arbitrary: s) (simp_all add: freeBlock_wellFormed)

lemma freeBlocks_frame:
  "totalBlocks (freeBlocks bs s) = totalBlocks s \<and> blockSize (freeBlocks bs s) = blockSize s
   \<and> root (freeBlocks bs s) = root s \<and> name (freeBlocks bs s) = name s
   \<and> prototypeName (freeBlocks bs s) = prototypeName s"
  unfolding freeBlocks_def
  by (induction bs arbitrary: s) (simp_all add: freeBlock_frame)

lemma freeBlocks_map:
  assumes "wellFormed s" and "i < totalBlocks s"
  shows "freeBlockMap (freeBlocks bs s) ! i = (if i \<in> set bs then 0 else freeBlockMap s ! i)"
  using assms unfolding freeBlocks_def
proof (induction bs arbitrary: s)
  case Nil
  then show ?case by simp
next
  case (Cons b bs)
  have wf': "wellFormed (freeBlock b s)" using Cons.prems(1) by (rule freeBlock_wellFormed)
  have tb: "i < totalBlocks (freeBlock b s)" using Cons.prems(2) by (simp add: freeBlock_frame)
  have step: "freeBlockMap (freeBlock b s) ! i = (if i = b then 0 else freeBlockMap s ! i)"
    using Cons.prems by (cases "b < totalBlocks s") (auto simp: freeBlock_def arraySet_def wellFormed_def)
  show ?case using Cons.IH [OF wf' tb] step by auto
qed

lemma freeBlocks_blocks:
  assumes "wellFormed s"
  shows "blockAt (blocks (freeBlocks bs s)) i
           = (if i \<in> set bs \<and> i < totalBlocks s then [] else blockAt (blocks s) i)"
  using assms unfolding freeBlocks_def
proof (induction bs arbitrary: s)
  case Nil
  then show ?case by simp
next
  case (Cons b bs)
  have wf': "wellFormed (freeBlock b s)" using Cons.prems(1) by (rule freeBlock_wellFormed)
  have step: "blockAt (blocks (freeBlock b s)) i
                = (if i = b \<and> i < totalBlocks s then [] else blockAt (blocks s) i)"
    using Cons.prems by (cases "b < totalBlocks s") (auto simp: freeBlock_def arraySet_def wellFormed_def blockAt_def)
  show ?case using Cons.IH [OF wf'] step by (auto simp: freeBlock_frame)
qed

lemma freeBlocks_count_mono:
  assumes "wellFormed s"
  shows "getFreeBlockCount s \<le> getFreeBlockCount (freeBlocks bs s)"
  using assms unfolding freeBlocks_def
proof (induction bs arbitrary: s)
  case Nil
  then show ?case by simp
next
  case (Cons b bs)
  have wf': "wellFormed (freeBlock b s)" using Cons.prems(1) by (rule freeBlock_wellFormed)
  have "getFreeBlockCount s \<le> getFreeBlockCount (freeBlock b s)"
    using Cons.prems
    by (cases "b < totalBlocks s")
       (simp_all add: freeBlock_def arraySet_def wellFormed_def getFreeBlockCount_count count_list_update_free)
  with Cons.IH [OF wf'] show ?case by simp
qed


declare allocLoop.simps [simp del]

lemma allocLoop_done:
  "\<not> cursor < length content \<Longrightarrow> allocLoop content cursor taken s = (Some taken, s)"
  by (subst allocLoop.simps) simp

lemma allocLoop_full:
  "cursor < length content \<Longrightarrow> indexOf (freeBlockMap s) 0 = None
    \<Longrightarrow> allocLoop content cursor taken s = (None, freeBlocks taken s)"
  by (subst allocLoop.simps) (simp add: allocateBlock_def)

lemma allocLoop_step:
  assumes "wellFormed s" and "cursor < length content" and "indexOf (freeBlockMap s) 0 = Some b"
  shows "allocLoop content cursor taken s =
           allocLoop content (cursor + blockSize s) (taken @ [b])
             (stored s b (take (blockSize s) (drop cursor content)))"
proof -
  have "b < length (blocks s)" and "b < length (freeBlockMap s)"
    using assms(1,3) indexOf_Some [of "freeBlockMap s" 0 b] by (simp_all add: wellFormed_def)
  then show ?thesis
    using assms
    by (subst allocLoop.simps) (simp add: allocateBlock_def arraySet_def stored_def)
qed

lemma stored_wellFormed: "wellFormed s \<Longrightarrow> wellFormed (stored s b chunk)"
  by (simp add: stored_def wellFormed_def)

lemma stored_frame:
  "totalBlocks (stored s b chunk) = totalBlocks s \<and> blockSize (stored s b chunk) = blockSize s
   \<and> root (stored s b chunk) = root s \<and> name (stored s b chunk) = name s
   \<and> prototypeName (stored s b chunk) = prototypeName s"
  by (simp add: stored_def)

text \<open>Induction over the rounds of the loop, in a well-formed volume.\<close>

lemma allocLoop_induct [consumes 1, case_names finished full step]:
  assumes wf: "wellFormed s"
    and finished: "\<And>cursor taken s. wellFormed s \<Longrightarrow> \<not> cursor < length content \<Longrightarrow> P cursor taken s"
    and full: "\<And>cursor taken s. wellFormed s \<Longrightarrow> cursor < length content
                 \<Longrightarrow> indexOf (freeBlockMap s) 0 = None \<Longrightarrow> P cursor taken s"
    and step: "\<And>cursor taken s b. wellFormed s \<Longrightarrow> cursor < length content
                 \<Longrightarrow> indexOf (freeBlockMap s) 0 = Some b
                 \<Longrightarrow> P (cursor + blockSize s) (taken @ [b])
                        (stored s b (take (blockSize s) (drop cursor content)))
                 \<Longrightarrow> P cursor taken s"
  shows "P cursor taken s"
  using wf
proof (induction n \<equiv> "count_list (freeBlockMap s) 0" arbitrary: cursor taken s rule: less_induct)
  case less
  show ?case
  proof (cases "cursor < length content")
    case False
    with less.prems show ?thesis by (rule finished)
  next
    case True
    show ?thesis
    proof (cases "indexOf (freeBlockMap s) 0")
      case None
      with less.prems True show ?thesis by (rule full)
    next
      case (Some b)
      let ?s2 = "stored s b (take (blockSize s) (drop cursor content))"
      have "count_list (freeBlockMap ?s2) 0 < count_list (freeBlockMap s) 0"
        using indexOf_Some [OF Some] by (simp add: stored_def count_list_update_less)
      then have "P (cursor + blockSize s) (taken @ [b]) ?s2"
        using less.hyps stored_wellFormed [OF less.prems] by blast
      with less.prems True Some show ?thesis by (rule step)
    qed
  qed
qed

lemma allocLoop_fail:
  assumes "wellFormed s" and "\<forall>b\<in>set taken. b < totalBlocks s"
    and "allocLoop content cursor taken s = (None, s')"
  shows "wellFormed s' \<and> totalBlocks s' = totalBlocks s \<and> blockSize s' = blockSize s
         \<and> root s' = root s \<and> name s' = name s \<and> prototypeName s' = prototypeName s
         \<and> (\<forall>i<totalBlocks s. freeBlockMap s' ! i = (if i \<in> set taken then 0 else freeBlockMap s ! i))
         \<and> (\<forall>i. i \<in> set taken \<or> blockAt (blocks s) i = [] \<longrightarrow> blockAt (blocks s') i = [])"
  using assms
proof (induction cursor taken s rule: allocLoop_induct [where content = content])
  case (finished cursor taken s)
  then show ?case by (simp add: allocLoop_done)
next
  case (full cursor taken s)
  then have s': "s' = freeBlocks taken s" by (simp add: allocLoop_full)
  show ?case
    using full.hyps(1) full.prems(1)
    by (auto simp: s' freeBlocks_wellFormed freeBlocks_frame freeBlocks_map freeBlocks_blocks)
next
  case (step cursor taken s b)
  let ?s2 = "stored s b (take (blockSize s) (drop cursor content))"
  have b: "b < totalBlocks s" "freeBlockMap s ! b = 0"
    using indexOf_Some [OF step.hyps(3)] step.hyps(1) by (simp_all add: wellFormed_def)
  have run: "allocLoop content (cursor + blockSize s) (taken @ [b]) ?s2 = (None, s')"
    using step.prems(2) step.hyps by (simp add: allocLoop_step)
  have bound: "\<forall>x\<in>set (taken @ [b]). x < totalBlocks ?s2"
    using step.prems(1) b by (simp add: stored_frame)
  note IH = step.IH [OF bound run]
  have map2: "\<And>i. i < totalBlocks s \<Longrightarrow> freeBlockMap ?s2 ! i = (if i = b then Suc 0 else freeBlockMap s ! i)"
    using step.hyps(1) by (simp add: stored_def wellFormed_def)
  have blk2: "\<And>i. i \<noteq> b \<Longrightarrow> blockAt (blocks ?s2) i = blockAt (blocks s) i"
    by (simp add: stored_def blockAt_def)
  show ?case
  proof (intro conjI allI impI)
    show "wellFormed s'" using IH by simp
    show "totalBlocks s' = totalBlocks s" using IH by (simp add: stored_frame)
    show "blockSize s' = blockSize s" using IH by (simp add: stored_frame)
    show "root s' = root s" using IH by (simp add: stored_frame)
    show "name s' = name s" using IH by (simp add: stored_frame)
    show "prototypeName s' = prototypeName s" using IH by (simp add: stored_frame)
  next
    fix i assume i: "i < totalBlocks s"
    then have "freeBlockMap s' ! i = (if i \<in> set (taken @ [b]) then 0 else freeBlockMap ?s2 ! i)"
      using IH by (simp add: stored_frame)
    then show "freeBlockMap s' ! i = (if i \<in> set taken then 0 else freeBlockMap s ! i)"
      using map2 [OF i] b by auto
  next
    fix i assume "i \<in> set taken \<or> blockAt (blocks s) i = []"
    then have "i \<in> set (taken @ [b]) \<or> blockAt (blocks ?s2) i = []"
      using blk2 [of i] by auto
    then show "blockAt (blocks s') i = []" using IH by blast
  qed
qed

lemma allocLoop_fail_restores:
  assumes "wellFormed s" and "allocLoop content 0 [] s = (None, s')"
  shows "freeBlockMap s' = freeBlockMap s \<and> root s' = root s \<and> wellFormed s'
         \<and> totalBlocks s' = totalBlocks s \<and> blockSize s' = blockSize s \<and> name s' = name s
         \<and> prototypeName s' = prototypeName s"
proof -
  note R = allocLoop_fail [OF assms(1) _ assms(2)]
  have "length (freeBlockMap s') = length (freeBlockMap s)"
    using R assms(1) by (simp add: wellFormed_def)
  moreover have "\<forall>i<length (freeBlockMap s). freeBlockMap s' ! i = freeBlockMap s ! i"
    using R assms(1) by (simp add: wellFormed_def)
  ultimately have "freeBlockMap s' = freeBlockMap s"
    by (simp add: list_eq_iff_nth_eq)
  then show ?thesis using R by simp
qed

section \<open>The allocation loop when it succeeds\<close>

lemma allocLoop_success_frame:
  assumes "wellFormed s" and "allocLoop content cursor taken s = (Some bs, s')"
  shows "wellFormed s' \<and> totalBlocks s' = totalBlocks s \<and> blockSize s' = blockSize s
         \<and> root s' = root s \<and> name s' = name s \<and> prototypeName s' = prototypeName s"
  using assms
proof (induction cursor taken s rule: allocLoop_induct [where content = content])
  case (finished cursor taken s)
  then show ?case by (simp add: allocLoop_done)
next
  case (full cursor taken s)
  then show ?case by (simp add: allocLoop_full)
next
  case (step cursor taken s b)
  then show ?case by (simp add: allocLoop_step stored_frame)
qed

lemma allocLoop_success_content:
  assumes "wellFormed s"
    and "\<forall>b\<in>set taken. b < totalBlocks s \<and> freeBlockMap s ! b \<noteq> 0"
    and "allocLoop content cursor taken s = (Some bs, s')"
  shows "readBlocks s' bs = readBlocks s taken @ drop cursor content"
  using assms
proof (induction cursor taken s rule: allocLoop_induct [where content = content])
  case (finished cursor taken s)
  then show ?case by (simp add: allocLoop_done)
next
  case (full cursor taken s)
  then show ?case by (simp add: allocLoop_full)
next
  case (step cursor taken s b)
  let ?chunk = "take (blockSize s) (drop cursor content)"
  let ?s2 = "stored s b ?chunk"
  have b: "b < totalBlocks s" "freeBlockMap s ! b = 0" "b < length (blocks s)"
    using indexOf_Some [OF step.hyps(3)] step.hyps(1) by (simp_all add: wellFormed_def)
  have notin: "b \<notin> set taken" using step.prems(1) b(2) by auto
  have run: "allocLoop content (cursor + blockSize s) (taken @ [b]) ?s2 = (Some bs, s')"
    using step.prems(2) step.hyps by (simp add: allocLoop_step)
  have used: "\<forall>x\<in>set (taken @ [b]). x < totalBlocks ?s2 \<and> freeBlockMap ?s2 ! x \<noteq> 0"
    using step.prems(1) b step.hyps(1)
    by (auto simp: stored_def wellFormed_def nth_list_update)
  have "readBlocks s' bs = readBlocks ?s2 (taken @ [b]) @ drop (cursor + blockSize s) content"
    using step.IH [OF used run] .
  moreover have "readBlocks ?s2 taken = readBlocks s taken"
  proof -
    have "map (blockAt (blocks ?s2)) taken = map (blockAt (blocks s)) taken"
    proof (rule map_cong [OF refl])
      fix x assume "x \<in> set taken"
      with notin have "x \<noteq> b" by auto
      then show "blockAt (blocks ?s2) x = blockAt (blocks s) x"
        by (simp add: stored_def blockAt_def)
    qed
    then show ?thesis unfolding readBlocks_def by (rule arg_cong)
  qed
  moreover have "blockAt (blocks ?s2) b = ?chunk"
    using b(3) by (simp add: stored_def blockAt_def)
  moreover have "?chunk @ drop (cursor + blockSize s) content = drop cursor content"
  proof -
    have "drop (cursor + blockSize s) content = drop (blockSize s) (drop cursor content)"
      by (simp only: drop_drop add.commute)
    then show ?thesis by (simp only: append_take_drop_id)
  qed
  ultimately show ?case by (simp add: readBlocks_def)
qed

lemma allocLoop_success_exists:
  assumes "wellFormed s"
    and "length content - cursor \<le> blockSize s * count_list (freeBlockMap s) 0"
  shows "\<exists>bs s'. allocLoop content cursor taken s = (Some bs, s')"
  using assms
proof (induction cursor taken s rule: allocLoop_induct [where content = content])
  case (finished cursor taken s)
  then show ?case by (simp add: allocLoop_done)
next
  case (full cursor taken s)
  from full.hyps(3) have "0 \<notin> set (freeBlockMap s)" by (rule indexOf_None)
  then have "count_list (freeBlockMap s) 0 = 0" by (simp add: count_list_0_iff)
  with full show ?case by simp
next
  case (step cursor taken s b)
  let ?s2 = "stored s b (take (blockSize s) (drop cursor content))"
  have cnt: "Suc (count_list (freeBlockMap ?s2) 0) = count_list (freeBlockMap s) 0"
    using indexOf_Some [OF step.hyps(3)] by (simp add: stored_def count_list_update_used)
  have "length content - (cursor + blockSize s)
          \<le> blockSize s * count_list (freeBlockMap ?s2) 0"
  proof -
    have "length content - cursor \<le> blockSize s * Suc (count_list (freeBlockMap ?s2) 0)"
      using step.prems cnt by simp
    then show ?thesis by simp
  qed
  then have "\<exists>bs s'. allocLoop content (cursor + blockSize s) (taken @ [b]) ?s2 = (Some bs, s')"
    using step.IH by (simp add: stored_frame)
  then show ?case using step.hyps by (simp add: allocLoop_step)
qed

section \<open>Errors of path resolution\<close>

lemma normalizePath_Inl: "normalizePath p = Inl e \<Longrightarrow> e = ThrownValue ''/'' \<and> p = []"
  by (auto simp: normalizePath_def Let_def split: if_splits)

lemma normalizePath_Inr: "normalizePath p = Inr n \<Longrightarrow> p \<noteq> []"
  by (auto simp: normalizePath_def Let_def split: if_splits)

lemma walkDirs_error:
  "walkDirs pn r seen parts = Inl e \<Longrightarrow> \<exists>x. e = Error (''Directory not found: '' @ x)"
proof (induction parts arbitrary: r seen)
  case Nil
  then show ?case by simp
next
  case (Cons part rest)
  then show ?case
    by (auto split: option.splits FSNode.splits)
qed

lemma resolveParent_error:
  assumes "resolveParent s p = Inl e"
  shows "e = ThrownValue ''/'' \<or> e = Error ''Invalid path - root has no parent''
         \<or> (\<exists>x. e = Error (''Directory not found: '' @ x))"
proof (cases "normalizePath p")
  case (Inl e')
  then show ?thesis using assms normalizePath_Inl [OF Inl]
    by (simp add: resolveParent_def)
next
  case (Inr normalized)
  show ?thesis
  proof (cases "pathParts normalized = []")
    case True
    with Inr assms show ?thesis by (simp add: resolveParent_def)
  next
    case False
    with Inr assms have "walkDirs (prototypeName s) (root s) [] (butlast (pathParts normalized)) = Inl e"
      by (auto simp: resolveParent_def Let_def split: sum.splits)
    then show ?thesis using walkDirs_error by blast
  qed
qed

lemma createFile_diskfull_alloc:
  assumes "createFile s p c ownerOpt modeOpt t = (Inl (Error ''Disk full while creating file''), s')"
  shows "allocLoop c 0 [] s = (None, s')"
proof (cases "normalizePath p")
  case (Inl e)
  then show ?thesis using assms normalizePath_Inl [OF Inl]
    by (simp add: createFile_def)
next
  case (Inr normalized)
  show ?thesis
  proof (cases "resolveParent s normalized")
    case (Inl e)
    with Inr assms have "e = Error ''Disk full while creating file''"
      by (simp add: createFile_def)
    with resolveParent_error [OF Inl] show ?thesis by simp
  next
    case inr: (Inr r)
    obtain ppath parent nm where r: "r = (ppath, parent, nm)" by (cases r) auto
    show ?thesis
      using assms Inr inr r
      by (auto simp: createFile_def createFileNode_def split: if_splits prod.splits option.splits)
  qed
qed

lemma walkNode_error:
  "walkNode pn p r parts = Inl e \<Longrightarrow>
     (\<exists>x. e = Error (''Not a directory while resolving path: '' @ x))
     \<or> (\<exists>x. e = Error (''Path does not exist: '' @ x))"
proof (induction parts arbitrary: r)
  case Nil
  then show ?case by simp
next
  case (Cons part rest)
  then show ?case
    by (cases r) (auto split: option.splits)
qed

lemma getNode_error:
  assumes "getNode s p = Inl e"
  shows "e = ThrownValue ''/''
         \<or> (\<exists>x. e = Error (''Not a directory while resolving path: '' @ x))
         \<or> (\<exists>x. e = Error (''Path does not exist: '' @ x))"
proof (cases "normalizePath p")
  case (Inl e')
  then show ?thesis using assms normalizePath_Inl [OF Inl] by (simp add: getNode_def)
next
  case (Inr normalized)
  with assms have "walkNode (prototypeName s) p (root s) (pathParts normalized) = Inl e"
    by (auto simp: getNode_def split: if_splits)
  then show ?thesis using walkNode_error by blast
qed

lemma getNode_same_root:
  "root s' = root s \<Longrightarrow> prototypeName s' = prototypeName s \<Longrightarrow> getNode s' p = getNode s p"
  unfolding getNode_def by (erule ssubst, erule ssubst) (rule refl)

lemma getNode_walk:
  "normalizePath p = Inr n \<Longrightarrow> getNode s p = walkNode (prototypeName s) p (root s) (walkedParts p)"
  by (simp add: getNode_def walkedParts_def)

lemma walkNode_path_irrelevant:
  "walkNode pn p r parts = Inr n \<Longrightarrow> walkNode pn p' r parts = Inr n"
proof (induction parts arbitrary: r)
  case Nil
  then show ?case by simp
next
  case (Cons part rest)
  then show ?case by (cases r) (auto split: option.splits)
qed

lemma writeFile_diskfull_alloc:
  assumes "writeFile s p c t = (Inl (Error ''Disk full while writing file''), s')"
  shows "\<exists>normalized nm old sz m. normalizePath p = Inr normalized
           \<and> getNode s normalized = Inr (FileNode nm old sz m)
           \<and> allocLoop c 0 [] (freeBlocks old s) = (None, s')"
proof (cases "normalizePath p")
  case (Inl e)
  then show ?thesis using assms normalizePath_Inl [OF Inl] by (simp add: writeFile_def)
next
  case (Inr normalized)
  show ?thesis
  proof (cases "getNode s normalized")
    case (Inl e)
    with Inr assms have "e = Error ''Disk full while writing file''"
      by (simp add: writeFile_def)
    with getNode_error [OF Inl] show ?thesis by simp
  next
    case node: (Inr n)
    show ?thesis
      using assms Inr node
      by (cases n) (auto simp: writeFile_def split: prod.splits option.splits)
  qed
qed

section \<open>Properties of the tree functions\<close>

lemma map_of_setChild:
  "map_of (setChild ch k v) k' = (if k' = k then Some v else map_of ch k')"
  by (induction ch) auto

lemma childValue_own: "map_of kvs k = Some v \<Longrightarrow> childValue pn kvs k = Some v"
  by (simp add: childValue_def)

lemma childValue_None: "childValue pn kvs k = None \<Longrightarrow> map_of kvs k = None"
  by (auto simp: childValue_def split: option.splits)

lemma childValue_node:
  "childValue pn kvs k = Some v \<Longrightarrow> nodeType v \<noteq> None \<Longrightarrow> map_of kvs k = Some v"
  by (auto simp: childValue_def split: option.splits if_splits)

lemma childValue_directory:
  "childValue pn kvs k = Some (DirectoryNode nm ch m)
     \<longleftrightarrow> map_of kvs k = Some (DirectoryNode nm ch m)"
  by (auto simp: childValue_def split: option.splits if_splits)

lemma childValue_setChild:
  "childValue pn (setChild ch k v) k' = (if k' = k then Some v else childValue pn ch k')"
  by (simp add: childValue_def map_of_setChild)

lemma walkNode_directory:
  "walkNode pn p r (part # parts) = Inr n \<Longrightarrow> isDirectory r"
  by (cases r) auto

lemma map_of_updateIn:
  "map_of (updateIn part rest f ch) k
     = (if k = part then map_option (updateAt rest f) (map_of ch part) else map_of ch k)"
  by (induction ch) auto

lemma isDirectory_updateAt:
  "isDirectory n \<Longrightarrow> (\<And>x. isDirectory x \<Longrightarrow> isDirectory (f x)) \<Longrightarrow> isDirectory (updateAt parts f n)"
  by (cases parts; cases n) auto

lemma walkNode_updateAt:
  "walkNode pn p r parts = Inr n \<Longrightarrow> nodeType n \<noteq> None
    \<Longrightarrow> walkNode pn p' (updateAt parts f r) parts = Inr (f n)"
proof (induction parts arbitrary: r)
  case Nil
  then show ?case by simp
next
  case (Cons part rest)
  from Cons.prems(1) obtain nm ch m child where r: "r = DirectoryNode nm ch m"
    and child: "childValue pn ch part = Some child"
    and walk: "walkNode pn p child rest = Inr n"
    by (cases r) (auto split: option.splits)
  have "nodeType child \<noteq> None"
  proof (cases rest)
    case Nil
    with walk Cons.prems(2) show ?thesis by simp
  next
    case (Cons part' rest')
    with walk show ?thesis by (cases child) auto
  qed
  with child have own: "map_of ch part = Some child" by (rule childValue_node)
  have "childValue pn (updateIn part rest f ch) part = Some (updateAt rest f child)"
    by (rule childValue_own) (simp add: map_of_updateIn own)
  then show ?case
    using r Cons.IH [OF walk Cons.prems(2)] by simp
qed

lemma walkDirs_updateAt:
  assumes "walkDirs pn r seen parts = Inr d"
    and "\<forall>x. isDirectory x \<longrightarrow> isDirectory (f x)"
    and "isDirectory r"
  shows "walkDirs pn (updateAt parts f r) seen parts = Inr (f d)"
  using assms(1,3)
proof (induction parts arbitrary: r seen)
  case Nil
  then show ?case by simp
next
  case (Cons part rest)
  from Cons.prems(2) obtain nm ch m where r: "r = DirectoryNode nm ch m"
    by (cases r) auto
  from Cons.prems(1) r obtain cn cch cm where
    cv: "childValue pn ch part = Some (DirectoryNode cn cch cm)"
    and walk: "walkDirs pn (DirectoryNode cn cch cm) (seen @ [part]) rest = Inr d"
    by (auto split: option.splits FSNode.splits)
  from cv have child: "map_of ch part = Some (DirectoryNode cn cch cm)"
    by (simp add: childValue_directory)
  have dir: "isDirectory (updateAt rest f (DirectoryNode cn cch cm))"
    using assms(2) by (intro isDirectory_updateAt) simp_all
  then obtain un uch um where u: "updateAt rest f (DirectoryNode cn cch cm) = DirectoryNode un uch um"
    by (cases "updateAt rest f (DirectoryNode cn cch cm)") auto
  have "walkDirs pn (updateAt rest f (DirectoryNode cn cch cm)) (seen @ [part]) rest = Inr (f d)"
    using Cons.IH [OF walk] by simp
  moreover have "childValue pn (updateIn part rest f ch) part = Some (DirectoryNode un uch um)"
    by (rule childValue_own) (simp add: map_of_updateIn child u)
  ultimately show ?case
    using r u by simp
qed

lemma walkDirs_isDirectory:
  "walkDirs pn r seen parts = Inr d \<Longrightarrow> isDirectory r \<Longrightarrow> isDirectory d"
proof (induction parts arbitrary: r seen)
  case Nil
  then show ?case by simp
next
  case (Cons part rest)
  then show ?case by (auto split: option.splits FSNode.splits)
qed

lemma allocLoop_empty: "allocLoop [] 0 [] s = (Some [], s)"
  by (simp add: allocLoop_done)

section \<open>A destination that is an existing file\<close>

lemma walkNode_last:
  "walkNode pn p r parts = Inr node \<Longrightarrow> parts \<noteq> []
    \<Longrightarrow> \<exists>parent. walkDirs pn r seen (butlast parts) = Inr parent
          \<and> childValue pn (children parent) (last parts) = Some node"
proof (induction parts arbitrary: r seen)
  case Nil
  then show ?case by simp
next
  case (Cons part rest)
  from Cons.prems(1) obtain nm ch m child where r: "r = DirectoryNode nm ch m"
    and child: "childValue pn ch part = Some child"
    and walk: "walkNode pn p child rest = Inr node"
    by (cases r) (auto split: option.splits)
  show ?case
  proof (cases rest)
    case Nil
    with r child walk show ?thesis by simp
  next
    case (Cons part' rest')
    with walk obtain cn cch cm where c: "child = DirectoryNode cn cch cm"
      by (cases child) auto
    from Cons.IH [OF walk, of "seen @ [part]"] Cons
    obtain parent where "walkDirs pn child (seen @ [part]) (butlast rest) = Inr parent"
      and "childValue pn (children parent) (last rest) = Some node"
      by auto
    with r child c Cons show ?thesis by simp
  qed
qed

lemma destination_existing_file:
  assumes "isDirectory (root s)" and "getNode s dn = Inr (FileNode nm bs sz m)"
  shows "\<exists>ppath parent k. destination s dn srcName = Inr (ppath, parent, Some k)
           \<and> childValue (prototypeName s) (children parent) k = Some (FileNode nm bs sz m)"
proof -
  from assms(2) obtain n2 where n2: "normalizePath dn = Inr n2"
    by (cases "normalizePath dn") (simp_all add: getNode_def)
  have notroot: "n2 \<noteq> ''/''"
    using assms n2 by (auto simp: getNode_def)
  then have walk: "walkNode (prototypeName s) dn (root s) (pathParts n2) = Inr (FileNode nm bs sz m)"
    using assms(2) n2 by (simp add: getNode_def)
  have parts: "pathParts n2 \<noteq> []"
    using walk assms(1) by auto
  from walkNode_last [OF walk parts, of "[]"] obtain parent where
    "walkDirs (prototypeName s) (root s) [] (butlast (pathParts n2)) = Inr parent"
    and "childValue (prototypeName s) (children parent) (last (pathParts n2))
           = Some (FileNode nm bs sz m)"
    by blast
  then have "resolveParent s dn = Inr (butlast (pathParts n2), parent, last (pathParts n2))"
    using n2 parts by (simp add: resolveParent_def Let_def)
  moreover have "tryExisting s dn srcName = Inl (Error ''Destination exists and is not a directory'')"
    using assms(2) by (simp add: tryExisting_def)
  ultimately have "destination s dn srcName
                     = Inr (butlast (pathParts n2), parent, Some (last (pathParts n2)))"
    by (simp add: destination_def)
  with \<open>childValue (prototypeName s) (children parent) (last (pathParts n2))
          = Some (FileNode nm bs sz m)\<close>
  show ?thesis by blast
qed

lemma move_onto_existing_file:
  assumes "isDirectory (root s)"
    and "normalizePath src = Inr sn" and "normalizePath dst = Inr dn"
    and "resolveParent s sn = Inr (spath, sParent, sName)"
    and "childValue (prototypeName s) (children sParent) sName = Some node"
    and "getNode s dn = Inr (FileNode nm bs sz m)"
  shows "move s src dst t = (Inl (Error ''Destination entry already exists''), s)"
proof -
  from destination_existing_file [OF assms(1,6), of "nodeName (prototypeName s) node"]
  obtain ppath parent k where
    "destination s dn (nodeName (prototypeName s) node) = Inr (ppath, parent, Some k)"
    and "childValue (prototypeName s) (children parent) k = Some (FileNode nm bs sz m)"
    by blast
  then show ?thesis
    using assms(2-5) by (simp add: move_def)
qed

lemma copy_onto_existing_file:
  assumes "isDirectory (root s)"
    and "getNode s src = Inr node" and "normalizePath dst = Inr dn"
    and "getNode s dn = Inr (FileNode nm bs sz m)"
  shows "copy s src dst t = (Inl (Error ''Destination entry already exists''), s)"
proof -
  from destination_existing_file [OF assms(1,4), of "nodeName (prototypeName s) node"]
  obtain ppath parent k where
    "destination s dn (nodeName (prototypeName s) node) = Inr (ppath, parent, Some k)"
    and "childValue (prototypeName s) (children parent) k = Some (FileNode nm bs sz m)"
    by blast
  then show ?thesis
    using assms(2,3) by (simp add: copy_def)
qed

section \<open>Operations keep free blocks empty\<close>

lemma cleanVolume_iff:
  "cleanVolume s \<longleftrightarrow>
     wellFormed s \<and> (\<forall>i<totalBlocks s. freeBlockMap s ! i = 0 \<longrightarrow> blocks s ! i = [])"
  by (auto simp: cleanVolume_def freeBlocksEmpty_def wellFormed_def list_all_iff blockAt_def)

lemma cleanVolume_root [simp]: "cleanVolume (s\<lparr>root := r\<rparr>) = cleanVolume s"
  by (simp add: cleanVolume_iff wellFormed_def)

lemma cleanVolume_prototypeName [simp]: "cleanVolume (s\<lparr>prototypeName := v\<rparr>) = cleanVolume s"
  by (simp add: cleanVolume_iff wellFormed_def)

lemma cleanVolume_new: "cleanVolume (newFileSystem nm n bs t)"
  by (simp add: cleanVolume_iff wellFormed_def newFileSystem_def)

lemma cleanVolume_freeBlock: "cleanVolume s \<Longrightarrow> cleanVolume (freeBlock idx s)"
  by (cases "idx < totalBlocks s")
     (auto simp: cleanVolume_iff wellFormed_def freeBlock_def arraySet_def nth_list_update)

lemma cleanVolume_freeBlocks: "cleanVolume s \<Longrightarrow> cleanVolume (freeBlocks bs s)"
  unfolding freeBlocks_def
  by (induction bs arbitrary: s) (simp_all add: cleanVolume_freeBlock)

lemma cleanVolume_allocateBlock: "cleanVolume s \<Longrightarrow> cleanVolume (snd (allocateBlock s))"
proof (cases "indexOf (freeBlockMap s) 0")
  case None
  assume "cleanVolume s"
  with None show ?thesis by (simp add: allocateBlock_None)
next
  case (Some b)
  assume c: "cleanVolume s"
  then have wf: "wellFormed s" by (simp add: cleanVolume_def)
  show ?thesis
    using c indexOf_Some [OF Some]
    by (auto simp: allocateBlock_Some [OF wf Some] cleanVolume_iff wellFormed_def nth_list_update)
qed

lemma cleanVolume_stored:
  assumes "cleanVolume s"
  shows "cleanVolume (stored s b chunk)"
proof -
  have "blocks (stored s b chunk) ! i = []"
    if "i < totalBlocks s" and "freeBlockMap (stored s b chunk) ! i = 0" for i
  proof (cases "i = b")
    case True
    with that assms show ?thesis by (simp add: stored_def cleanVolume_iff wellFormed_def)
  next
    case False
    with that assms show ?thesis by (simp add: stored_def cleanVolume_iff)
  qed
  then show ?thesis
    using assms by (simp add: cleanVolume_iff stored_wellFormed stored_frame)
qed

lemma cleanVolume_allocLoop:
  assumes "cleanVolume s" and "allocLoop content cursor taken s = (r, s')"
  shows "cleanVolume s'"
proof -
  have wf: "wellFormed s" using assms(1) by (simp add: cleanVolume_def)
  from wf assms show ?thesis
  proof (induction cursor taken s rule: allocLoop_induct [where content = content])
    case (finished cursor taken s)
    then show ?case by (simp add: allocLoop_done)
  next
    case (full cursor taken s)
    then show ?case by (auto simp: allocLoop_full cleanVolume_freeBlocks)
  next
    case (step cursor taken s b)
    then show ?case by (simp add: allocLoop_step cleanVolume_stored)
  qed
qed

lemma cleanVolume_createFileNode:
  "cleanVolume s \<Longrightarrow> cleanVolume (snd (createFileNode s nm content own modeOpt t))"
  by (auto simp: createFileNode_def split: prod.splits option.splits dest: cleanVolume_allocLoop)

lemma cleanVolume_createDirectory:
  "cleanVolume s \<Longrightarrow> cleanVolume (snd (createDirectory s p ownerOpt modeOpt t))"
  by (auto simp: createDirectory_def Let_def split: sum.splits prod.splits if_splits)

lemma cleanVolume_createFile:
  assumes "cleanVolume s"
  shows "cleanVolume (snd (createFile s p content ownerOpt modeOpt t))"
proof -
  have "\<And>nm own. cleanVolume (snd (createFileNode s nm content own modeOpt t))"
    using assms by (rule cleanVolume_createFileNode)
  then show ?thesis
    using assms
    by (auto simp: createFile_def split: sum.splits prod.splits if_splits)
       (metis snd_conv)+
qed


lemma cleanVolume_writeFile:
  assumes "cleanVolume s"
  shows "cleanVolume (snd (writeFile s p content t))"
proof -
  have "cleanVolume s'" if "allocLoop content 0 [] (freeBlocks bs s) = (r, s')" for bs r s'
    using cleanVolume_allocLoop [OF cleanVolume_freeBlocks [OF assms] that] .
  then show ?thesis
    using assms
    by (auto simp: writeFile_def split: sum.splits FSNode.splits prod.splits option.splits)
qed

lemma cleanVolume_appendFile:
  "cleanVolume s \<Longrightarrow> cleanVolume (snd (appendFile s p extra t))"
  by (auto simp: appendFile_def readFile_def cleanVolume_writeFile
           split: sum.splits FSNode.splits prod.splits)

lemma cleanVolume_deleteRec:
  "cleanVolume s \<Longrightarrow> cleanVolume (snd (deleteRec n s))"
  "cleanVolume s \<Longrightarrow> cleanVolume (snd (deleteRecChildren ch s))"
proof (induction n s and ch s rule: deleteRec_deleteRecChildren.induct)
  case (1 nm bs sz m s)
  then show ?case by (simp add: cleanVolume_freeBlocks)
next
  case (2 nm ch m s)
  then show ?case by simp
next
  case (3 s)
  then show ?case by simp
next
  case (4 f s)
  then show ?case by simp
next
  case (5 x s)
  then show ?case by simp
next
  case (6 s)
  then show ?case by simp
next
  case (7 k c kcs s)
  show ?case
  proof (cases "deleteRec c s")
    case (Pair r s1)
    have c1: "cleanVolume s1" using "7.IH"(1) [OF "7.prems"] Pair by simp
    show ?thesis
    proof (cases r)
      case None
      with Pair c1 "7.IH"(2) [OF Pair [symmetric] _ c1] show ?thesis by simp
    next
      case (Some e)
      with Pair c1 show ?thesis by simp
    qed
  qed
qed

lemma cleanVolume_deleteNode:
  assumes "cleanVolume s"
  shows "cleanVolume (snd (deleteNode s p t))"
proof -
  have "\<And>n. cleanVolume (snd (deleteRec n s))"
    using assms by (rule cleanVolume_deleteRec)
  then show ?thesis
    using assms
    by (auto simp: deleteNode_def split: sum.splits prod.splits option.splits if_splits)
       (metis snd_conv)+
qed

lemma cleanVolume_rename:
  "cleanVolume s \<Longrightarrow> cleanVolume (snd (rename s p newName t))"
  by (auto simp: rename_def Let_def split: sum.splits prod.splits option.splits if_splits)

lemma cleanVolume_move:
  "cleanVolume s \<Longrightarrow> cleanVolume (snd (move s src dst t))"
  by (auto simp: move_def Let_def split: sum.splits prod.splits option.splits if_splits)

lemma cleanVolume_cloneRec:
  "cleanVolume s \<Longrightarrow> cleanVolume (snd (cloneRec destName t n s))"
  "cleanVolume s \<Longrightarrow> cleanVolume (snd (cloneChildren destName t ch built s))"
proof (induction destName t n s and destName t ch built s rule: cloneRec_cloneChildren.induct)
  case (1 destName t nm bs sz m s)
  then show ?case by (simp add: cleanVolume_createFileNode)
next
  case (2 destName t nm ch m s)
  then show ?case by (auto split: prod.splits sum.splits)
next
  case (3 destName t s)
  then show ?case by simp
next
  case (4 destName t f s)
  then show ?case by simp
next
  case (5 destName t x s)
  then show ?case by simp
next
  case (6 destName t built s)
  then show ?case by simp
next
  case (7 destName t k child rest built s)
  show ?case
  proof (cases "cloneRec destName t child s")
    case (Pair r s1)
    have c1: "cleanVolume s1" using "7.IH"(1) [OF "7.prems"] Pair by simp
    show ?thesis
    proof (cases r)
      case (Inl e)
      with Pair c1 show ?thesis by simp
    next
      case (Inr childClone)
      with Pair c1 "7.IH"(2) [OF Pair [symmetric] _ c1] show ?thesis by simp
    qed
  qed
qed

lemma cleanVolume_copy:
  assumes "cleanVolume s"
  shows "cleanVolume (snd (copy s src dst t))"
proof -
  have "\<And>destName n. cleanVolume (snd (cloneRec destName t n s))"
    using assms by (rule cleanVolume_cloneRec)
  then show ?thesis
    using assms
    by (auto simp: copy_def split: sum.splits prod.splits if_splits) (metis snd_conv)+
qed

lemma cleanVolume_format: "cleanVolume (format True t s)"
  by (simp add: cleanVolume_iff wellFormed_def format_def)

lemma reachable_cleanVolume: "reachable s \<Longrightarrow> cleanVolume s"
proof (induction rule: reachable.induct)
  case (constructed nm n bs t)
  show ?case by (rule cleanVolume_new)
next
  case (allocated s)
  then show ?case by (simp add: cleanVolume_allocateBlock)
next
  case (freed s idx)
  then show ?case by (simp add: cleanVolume_freeBlock)
next
  case (createdDirectory s p ownerOpt modeOpt t)
  then show ?case by (simp add: cleanVolume_createDirectory)
next
  case (createdFile s p content ownerOpt modeOpt t)
  then show ?case by (simp add: cleanVolume_createFile)
next
  case (written s p content t)
  then show ?case by (simp add: cleanVolume_writeFile)
next
  case (appended s p extra t)
  then show ?case by (simp add: cleanVolume_appendFile)
next
  case (deleted s p t)
  then show ?case by (simp add: cleanVolume_deleteNode)
next
  case (renamed s p newName t)
  then show ?case by (simp add: cleanVolume_rename)
next
  case (moved s src dst t)
  then show ?case by (simp add: cleanVolume_move)
next
  case (copied s src dst t)
  then show ?case by (simp add: cleanVolume_copy)
next
  case (formatted s t)
  show ?case by (rule cleanVolume_format)
next
  case (polluted s v)
  then show ?case by simp
qed

lemma reachable_wellFormed: "reachable s \<Longrightarrow> wellFormed s"
  using reachable_cleanVolume by (simp add: cleanVolume_def)

section \<open>Normalizing an absolute path twice\<close>

lemma splitSlash_not_Nil: "splitSlash s \<noteq> []"
  by (induction s) (auto split: list.splits)

lemma splitSlash_slashFree: "CHR ''/'' \<notin> set x \<Longrightarrow> splitSlash x = [x]"
  by (induction x) auto

lemma splitSlash_append:
  "CHR ''/'' \<notin> set x \<Longrightarrow> splitSlash (x @ CHR ''/'' # y) = x # splitSlash y"
  by (induction x) auto

lemma splitSlash_parts: "x \<in> set (splitSlash s) \<Longrightarrow> CHR ''/'' \<notin> set x"
proof (induction s arbitrary: x)
  case Nil
  then show ?case by simp
next
  case (Cons c cs)
  then show ?case
    by (cases "splitSlash cs") (auto split: if_splits)
qed

lemma splitSlash_joinSlash:
  "res \<noteq> [] \<Longrightarrow> \<forall>x\<in>set res. CHR ''/'' \<notin> set x \<Longrightarrow> splitSlash (joinSlash res @ t) =
     butlast res @ (case splitSlash (last res @ t) of [] \<Rightarrow> [] | y # ys \<Rightarrow> y # ys)"
proof (induction res rule: joinSlash.induct)
  case 1
  then show ?case by simp
next
  case (2 x)
  then show ?case by (simp split: list.splits)
next
  case (3 x y ys)
  then show ?case by (simp add: splitSlash_append)
qed

lemma joinSlash_Nil_iff:
  "\<forall>x\<in>set res. x \<noteq> [] \<Longrightarrow> joinSlash res = [] \<longleftrightarrow> res = []"
  by (induction res rule: joinSlash.induct) auto

lemma joinSlash_not_Nil:
  "res \<noteq> [] \<Longrightarrow> last res \<noteq> [] \<Longrightarrow> joinSlash res \<noteq> []"
  by (induction res rule: joinSlash.induct) auto

lemma last_joinSlash:
  "res \<noteq> [] \<Longrightarrow> last res \<noteq> [] \<Longrightarrow> last (joinSlash res) = last (last res)"
proof (induction res rule: joinSlash.induct)
  case 1
  then show ?case by simp
next
  case (2 x)
  then show ?case by simp
next
  case (3 x y ys)
  then have "joinSlash (y # ys) \<noteq> []" by (intro joinSlash_not_Nil) simp_all
  with 3 show ?case by simp
qed

lemma normalizeStep_clean:
  assumes "\<forall>x\<in>set res. cleanSegment x" and "CHR ''/'' \<notin> set seg"
  shows "\<forall>x\<in>set (normalizeStep False res seg). cleanSegment x"
proof -
  have "set (butlast res) \<subseteq> set res" by (auto dest: in_set_butlastD)
  then show ?thesis
    using assms by (auto simp: normalizeStep_def cleanSegment_def)
qed

lemma foldl_normalizeStep_clean:
  "\<forall>x\<in>set res. cleanSegment x \<Longrightarrow> \<forall>x\<in>set segs. CHR ''/'' \<notin> set x
    \<Longrightarrow> \<forall>x\<in>set (foldl (normalizeStep False) res segs). cleanSegment x"
proof (induction segs arbitrary: res)
  case Nil
  then show ?case by simp
next
  case (Cons seg segs)
  have "\<forall>x\<in>set (normalizeStep False res seg). cleanSegment x"
    using Cons.prems by (intro normalizeStep_clean) simp_all
  then show ?case using Cons.IH Cons.prems(2) by simp
qed

lemma foldl_normalizeStep_on_clean:
  "\<forall>x\<in>set segs. cleanSegment x \<Longrightarrow> foldl (normalizeStep b) res segs = res @ segs"
  by (induction segs arbitrary: res) (auto simp: normalizeStep_def cleanSegment_def)

lemma normalizePath_root: "normalizePath ''/'' = Inr ''/''"
  by code_simp

lemma normalizePath_absolute_idem:
  assumes "p \<noteq> []" and "hd p = CHR ''/''" and "normalizePath p = Inr n"
  shows "normalizePath n = Inr n"
proof -
  define res where "res = foldl (normalizeStep False) [] (splitSlash p)"
  define trail where "trail = (if last p = CHR ''/'' then ''/'' else [])"
  have clean: "\<forall>x\<in>set res. cleanSegment x"
    unfolding res_def by (rule foldl_normalizeStep_clean) (simp_all add: splitSlash_parts)
  have ns: "normalizeString p False = joinSlash res"
    by (simp add: normalizeString_def res_def)
  show ?thesis
  proof (cases "res = []")
    case True
    then have "n = ''/''"
      using assms ns by (simp add: normalizePath_def posix_normalize_def Let_def startsWith_def)
    then show ?thesis by (simp add: normalizePath_root)
  next
    case False
    have nonempty: "joinSlash res \<noteq> []"
      using clean False joinSlash_Nil_iff [of res] by (auto simp: cleanSegment_def)
    have n: "n = CHR ''/'' # joinSlash res @ trail"
      using assms ns nonempty
      by (auto simp: normalizePath_def posix_normalize_def Let_def startsWith_def trail_def)
    have lastclean: "cleanSegment (last res)" using clean False by simp
    have split: "splitSlash (joinSlash res @ trail) = res @ (if trail = [] then [] else [[]])"
    proof -
      have free: "\<forall>x\<in>set res. CHR ''/'' \<notin> set x" using clean by (simp add: cleanSegment_def)
      have "splitSlash (last res @ trail) = last res # (if trail = [] then [] else [[]])"
        using lastclean
        by (auto simp: trail_def cleanSegment_def splitSlash_slashFree splitSlash_append)
      then show ?thesis
        using splitSlash_joinSlash [OF False free, of trail] False by simp
    qed
    have fold: "foldl (normalizeStep False) [] (splitSlash n) = res"
    proof -
      have "splitSlash n = [] # res @ (if trail = [] then [] else [[]])"
        using n split by simp
      then show ?thesis
        using clean by (simp add: foldl_normalizeStep_on_clean normalizeStep_def)
    qed
    have lastn: "(last n = CHR ''/'') = (trail \<noteq> [])"
    proof (cases "trail = []")
      case True
      have "last (joinSlash res) = last (last res)"
        using False lastclean by (intro last_joinSlash) (simp_all add: cleanSegment_def)
      moreover have "last (last res) \<noteq> CHR ''/''"
      proof
        assume eq: "last (last res) = CHR ''/''"
        have "last res \<noteq> []" using lastclean by (simp add: cleanSegment_def)
        then have "last (last res) \<in> set (last res)" by (rule last_in_set)
        with eq lastclean show False by (simp add: cleanSegment_def)
      qed
      ultimately show ?thesis using True n nonempty by simp
    next
      case nontriv: False
      then have "trail = ''/''" by (simp add: trail_def split: if_splits)
      then show ?thesis using n by simp
    qed
    have "posix_normalize n = n"
    proof -
      have ns': "normalizeString n False = joinSlash res"
        using fold by (simp add: normalizeString_def)
      have hd: "n \<noteq> []" "hd n = CHR ''/''" using n by simp_all
      have "posix_normalize n
              = CHR ''/'' # joinSlash res @ (if last n = CHR ''/'' then ''/'' else [])"
        using hd nonempty by (simp add: posix_normalize_def Let_def ns')
      also have "(if last n = CHR ''/'' then ''/'' else []) = trail"
      proof (cases "trail = []")
        case True
        with lastn show ?thesis by simp
      next
        case False
        then have "trail = ''/''" by (simp add: trail_def split: if_splits)
        with lastn show ?thesis by simp
      qed
      finally show ?thesis using n by simp
    qed
    then show ?thesis
      using n by (simp add: normalizePath_def Let_def startsWith_def)
  qed
qed

section \<open>Properties of the mount table\<close>

lemma set_insertMount: "set (insertMount a ms) = insert a (set ms)"
  by (induction ms) auto

lemma sortedMounts_insertMount: "sortedMounts ms \<Longrightarrow> sortedMounts (insertMount a ms)"
  unfolding sortedMounts_def
  by (induction ms) (auto simp: set_insertMount)

lemma sortedMounts_sortMounts: "sortedMounts (sortMounts ms)"
  unfolding sortMounts_def
proof (induction ms)
  case Nil
  show ?case by (simp add: sortedMounts_def)
next
  case (Cons a ms)
  then show ?case by (simp add: sortedMounts_insertMount)
qed

lemma set_sortMounts: "set (sortMounts ms) = set ms"
  unfolding sortMounts_def
  by (induction ms) (simp_all add: set_insertMount)

lemma sortedMounts_newVFSManager: "sortedMounts (newVFSManager t)"
  by (simp add: newVFSManager_def sortedMounts_sortMounts)

lemma sortedMounts_mount: "mount ms fsys mountPoint = Inr ms' \<Longrightarrow> sortedMounts ms'"
  by (auto simp: mount_def sortedMounts_sortMounts split: sum.splits if_splits)

lemma sortedMounts_remove1: "sortedMounts ms \<Longrightarrow> sortedMounts (remove1 m ms)"
  unfolding sortedMounts_def
proof (induction ms)
  case Nil
  then show ?case by simp
next
  case (Cons a ms)
  have "set (remove1 m ms) \<subseteq> set ms" by (rule set_remove1_subset)
  with Cons show ?case by auto
qed

lemma sortedMounts_unmount:
  "sortedMounts ms \<Longrightarrow> unmount ms mountPoint = Inr ms' \<Longrightarrow> sortedMounts ms'"
  by (auto simp: unmount_def sortedMounts_remove1
           split: sum.splits option.splits if_splits)

lemma find_first_longest:
  "sortedMounts ms \<Longrightarrow> find P ms = Some m
    \<Longrightarrow> m \<in> set ms \<and> P m \<and> (\<forall>m'\<in>set ms. P m' \<longrightarrow> length (fst m') \<le> length (fst m))"
  unfolding sortedMounts_def
  by (induction ms) (auto split: if_splits)

lemma normalizePath_nonempty: "p \<noteq> [] \<Longrightarrow> \<exists>n. normalizePath p = Inr n"
  by (simp add: normalizePath_def Let_def)

lemma stripMount_nonempty: "stripMount mountPoint p \<noteq> []"
  by (simp add: stripMount_def)

lemma resolve_fallback:
  assumes "normalizePath vfsPath = Inr p"
    and "find (\<lambda>m. fst m = ''/'') ms = Some rootMount"
    and "\<forall>m\<in>set ms. \<not> mountMatches (fst m) p"
  shows "resolve ms vfsPath = Inr (snd rootMount, p, ''/'')"
proof -
  have "find (\<lambda>m. mountMatches (fst m) p) ms = None"
    using assms(3) by (auto simp: find_None_iff)
  then show ?thesis using assms(1,2) by (simp add: resolve_def)
qed

lemma resolve_match:
  assumes "sortedMounts ms" and "normalizePath vfsPath = Inr p"
    and "\<exists>m\<in>set ms. mountMatches (fst m) p"
  shows "\<exists>m\<in>set ms. mountMatches (fst m) p
           \<and> (\<forall>m'\<in>set ms. mountMatches (fst m') p \<longrightarrow> length (fst m') \<le> length (fst m))
           \<and> (\<exists>inner. normalizePath (stripMount (fst m) p) = Inr inner
                 \<and> resolve ms vfsPath = Inr (snd m, inner, fst m))"
proof -
  from assms(3) obtain m where found: "find (\<lambda>m. mountMatches (fst m) p) ms = Some m"
    by (cases "find (\<lambda>m. mountMatches (fst m) p) ms") (auto simp: find_None_iff)
  note first = find_first_longest [OF assms(1) found]
  obtain inner where inner: "normalizePath (stripMount (fst m) p) = Inr inner"
    using normalizePath_nonempty [OF stripMount_nonempty] by blast
  have "resolve ms vfsPath = Inr (snd m, inner, fst m)"
    using assms(2) found inner by (simp add: resolve_def stripMount_def Let_def)
  with first inner show ?thesis by blast
qed

section \<open>Names a directory inherits\<close>

text \<open>
  What the operations do with the names that every \<^verbatim>\<open>children\<close> record inherits. In
  the volume with the files \<^verbatim>\<open>/a\<close> and \<^verbatim>\<open>/b\<close>, \<^verbatim>\<open>getNode("/constructor")\<close>
  returns a function; it is no file, \<^verbatim>\<open>stat\<close> and \<^verbatim>\<open>deleteNode\<close> fail on its missing
  \<^verbatim>\<open>children\<close>, the name is taken for \<^verbatim>\<open>createDirectory\<close> and as the new name of
  \<^verbatim>\<open>rename\<close>, and renaming or moving the function fails on the assignment of its
  name, leaving the volume as it was.
\<close>

lemma inherited_function_examples:
  "getNode twoFiles ''/constructor'' = Inr (InheritedFunction ''constructor'')
   \<and> fst (readFile twoFiles ''/constructor'') = Inl (Error ''Not a file'')
   \<and> getNode twoFiles ''/constructor/x''
        = Inl (Error ''Not a directory while resolving path: x'')
   \<and> fst (createFile twoFiles ''/constructor/x'' [] None None 3)
        = Inl (Error ''Directory not found: constructor'')
   \<and> stat twoFiles ''/toString'' = (Inl TypeError, twoFiles)
   \<and> deleteNode twoFiles ''/valueOf'' 3 = (Inl TypeError, twoFiles)
   \<and> createDirectory twoFiles ''/hasOwnProperty'' None None 3
        = (Inl (Error ''Entry already exists''), twoFiles)
   \<and> rename twoFiles ''/a'' ''toString'' 3
        = (Inl (Error ''Destination name already exists''), twoFiles)
   \<and> rename twoFiles ''/constructor'' ''c'' 3 = (Inl TypeError, twoFiles)
   \<and> move twoFiles ''/constructor'' ''/c'' 3 = (Inl TypeError, twoFiles)
   \<and> copy twoFiles ''/constructor'' ''/c'' 3 = (Inl TypeError, twoFiles)
   \<and> copy twoFiles ''/a'' ''/__proto__'' 3
        = (Inl (Error ''Destination entry already exists''), twoFiles)"
  unfolding twoFiles_def eightBlockVolume_def by code_simp

text \<open>
  \<^verbatim>\<open>rename("/__proto__", "p")\<close> succeeds: it returns \<^verbatim>\<open>Object.prototype\<close>, gives
  it the name \<^verbatim>\<open>p\<close> and stores it in the root, where \<^verbatim>\<open>listDirectory\<close> shows an entry
  without type and metadata. From then on every \<^verbatim>\<open>children\<close> record inherits the
  string \<^verbatim>\<open>p\<close> under \<^verbatim>\<open>name\<close>, so \<^verbatim>\<open>createFile("/name", "")\<close> is refused.
\<close>

lemma inherited_prototype_examples:
  "fst (rename twoFiles ''/__proto__'' ''p'' 3) = Inr ObjectPrototype
   \<and> prototypeName twoFiles = None
   \<and> prototypeName prototypeStored = Some ''p''
   \<and> map fst (children (root prototypeStored)) = [''a'', ''b'', ''p'']
   \<and> getNode prototypeStored ''/p'' = Inr ObjectPrototype
   \<and> fst (listDirectory prototypeStored ''/'')
        = Inr [(''a'', Some File, Some 5,
                Some \<lparr>createdAt = 1, updatedAt = 1, owner = ''root'', mode = ''rw-r--r--''\<rparr>),
               (''b'', Some File, Some 2,
                Some \<lparr>createdAt = 2, updatedAt = 2, owner = ''root'', mode = ''rw-r--r--''\<rparr>),
               (''p'', None, None, None)]
   \<and> getNode prototypeStored ''/name'' = Inr (InheritedString ''p'')
   \<and> fst (createFile twoFiles ''/name'' [] None None 4)
        = Inr (FileNode ''name'' [] 0
                \<lparr>createdAt = 4, updatedAt = 4, owner = ''root'', mode = ''rw-r--r--''\<rparr>)
   \<and> createFile prototypeStored ''/name'' [] None None 4
        = (Inl (Error ''Entry already exists''), prototypeStored)
   \<and> rename prototypeStored ''/name'' ''q'' 4 = (Inl TypeError, prototypeStored)
   \<and> deleteNode prototypeStored ''/p'' 4 = (Inl TypeError, prototypeStored)"
  unfolding prototypeStored_def twoFiles_def eightBlockVolume_def by code_simp

section \<open>A write that runs out of blocks\<close>

text \<open>
  What a failed write leaves behind, on any well-formed volume: when \<^verbatim>\<open>writeFile(p, c)\<close>
  fails with the disk-full error, the path had normalized and resolved to a file; the
  blocks taken by the call are rolled back and the file's old blocks have been freed, so
  the occupancy table is the one obtained by freeing the old blocks, every old block
  inside the volume is marked free and empty, and reading the file yields the empty
  string. The tree is untouched: the node still lists its old blocks, which the
  allocator now holds as free.
\<close>

lemma writeFile_diskfull_state:
  assumes "wellFormed s"
    and "writeFile s p c t = (Inl (Error ''Disk full while writing file''), s')"
  shows "\<exists>normalized nm old sz m.
           normalizePath p = Inr normalized
           \<and> getNode s normalized = Inr (FileNode nm old sz m)
           \<and> freeBlockMap s' = freeBlockMap (freeBlocks old s)
           \<and> (\<forall>b\<in>set old. b < totalBlocks s \<longrightarrow> freeBlockMap s' ! b = 0)
           \<and> readFile s' normalized = (Inr [], s')
           \<and> root s' = root s
           \<and> getNode s' normalized = Inr (FileNode nm old sz m)"
proof -
  from writeFile_diskfull_alloc [OF assms(2)] obtain normalized nm old sz m where
    norm: "normalizePath p = Inr normalized"
    and node: "getNode s normalized = Inr (FileNode nm old sz m)"
    and run: "allocLoop c 0 [] (freeBlocks old s) = (None, s')"
    by blast
  let ?s1 = "freeBlocks old s"
  have wf1: "wellFormed ?s1" using assms(1) by (rule freeBlocks_wellFormed)
  have restored: "freeBlockMap s' = freeBlockMap ?s1" and rt: "root s' = root s"
    and pn: "prototypeName s' = prototypeName s"
    and wf': "wellFormed s'" and tb: "totalBlocks s' = totalBlocks s"
    using allocLoop_fail_restores [OF wf1 run] by (simp_all add: freeBlocks_frame)
  have freed: "\<forall>b\<in>set old. b < totalBlocks s \<longrightarrow> freeBlockMap s' ! b = 0"
    using freeBlocks_map [OF assms(1)] restored by simp
  have "\<forall>b\<in>set old. blockAt (blocks ?s1) b = []"
    using freeBlocks_blocks [OF assms(1), of old] assms(1)
    by (auto simp: blockAt_def wellFormed_def)
  then have "\<forall>b\<in>set old. blockAt (blocks s') b = []"
    using allocLoop_fail [OF wf1 _ run] by simp
  then have empty: "readBlocks s' old = []"
    by (simp add: readBlocks_def)
  have node': "getNode s' normalized = Inr (FileNode nm old sz m)"
    using node getNode_same_root [OF rt pn] by simp
  have "readFile s' normalized = (Inr [], s')"
    using node' empty by (simp add: readFile_def)
  with norm node restored freed rt node' show ?thesis by blast
qed

text \<open>
  Claim C1: when \<^verbatim>\<open>writeFile(p, c)\<close> fails with the disk-full error mid-way, the new
  blocks are rolled back, the file's old blocks have been freed, and the file is left
  with no blocks and zero content: its block list is empty and reading it yields the
  empty string. The evaluation below shows what the code does instead. On the one-block
  volume filled by \<^verbatim>\<open>/x\<close> (content \<^verbatim>\<open>abc\<close>, block 0),
  \<^verbatim>\<open>writeFile("/x", "abcde")\<close> fails with the disk-full error; block 0 is free
  afterwards and \<^verbatim>\<open>/x\<close> reads as empty, but \<^verbatim>\<open>stat("/x")\<close> still reports the block
  list \<^verbatim>\<open>[0]\<close> and the size 3, because the function throws before it assigns
  \<^verbatim>\<open>node.blocks\<close> and \<^verbatim>\<open>node.size\<close>. The file thus lists a block it does not
  own: \<^verbatim>\<open>createFile("/y", "yy")\<close> is given block 0, after which \<^verbatim>\<open>/x\<close> reads as
  \<^verbatim>\<open>yy\<close>, and an empty write to \<^verbatim>\<open>/x\<close> then frees the block under \<^verbatim>\<open>/y\<close>,
  which reads as empty from then on.
\<close>

theorem writeFile_diskfull_keeps_block_list:
  "fst (stat fullVolume ''/x'')
     = Inr (FileStat ''x'' 3 [0]
             \<lparr>createdAt = 1, updatedAt = 1, owner = ''root'', mode = ''rw-r--r--''\<rparr>)
   \<and> fst (writeFile fullVolume ''/x'' ''abcde'' 2) = Inl (Error ''Disk full while writing file'')
   \<and> freeBlockMap failedWrite = [0]
   \<and> fst (readFile failedWrite ''/x'') = Inr []
   \<and> fst (stat failedWrite ''/x'')
     = Inr (FileStat ''x'' 3 [0]
             \<lparr>createdAt = 1, updatedAt = 1, owner = ''root'', mode = ''rw-r--r--''\<rparr>)
   \<and> fst (createFile failedWrite ''/y'' ''yy'' None None 3)
     = Inr (FileNode ''y'' [0] 2
             \<lparr>createdAt = 3, updatedAt = 3, owner = ''root'', mode = ''rw-r--r--''\<rparr>)
   \<and> fst (readFile blockShared ''/y'') = Inr ''yy''
   \<and> fst (readFile blockShared ''/x'') = Inr ''yy''
   \<and> fst (writeFile blockShared ''/x'' [] 4)
     = Inr (FileNode ''x'' [] 0
             \<lparr>createdAt = 1, updatedAt = 4, owner = ''root'', mode = ''rw-r--r--''\<rparr>)
   \<and> freeBlockMap (snd (writeFile blockShared ''/x'' [] 4)) = [0]
   \<and> fst (stat (snd (writeFile blockShared ''/x'' [] 4)) ''/y'')
     = Inr (FileStat ''y'' 2 [0]
             \<lparr>createdAt = 3, updatedAt = 3, owner = ''root'', mode = ''rw-r--r--''\<rparr>)
   \<and> fst (readFile (snd (writeFile blockShared ''/x'' [] 4)) ''/y'') = Inr []"
  unfolding blockShared_def failedWrite_def fullVolume_def oneBlockVolume_def by code_simp

section \<open>Rollback of a failed file creation\<close>

text \<open>
  Claim C2: when \<^verbatim>\<open>createFile(p, c)\<close> fails with the disk-full error because the
  allocation ran out of blocks mid-way, every block taken during the call is free again,
  so the free-block count (indeed the whole occupancy table) is what it was before the
  call, and the tree is unchanged: no node was inserted. In particular, on a volume of
  one block of size four, \<^verbatim>\<open>createFile("/x", "abcde")\<close> fails with the disk-full error
  and leaves one free block.
\<close>

theorem createFile_diskfull_rollback:
  "(wellFormed s \<and> createFile s p c ownerOpt modeOpt t
        = (Inl (Error ''Disk full while creating file''), s')
      \<longrightarrow> getFreeBlockCount s' = getFreeBlockCount s
          \<and> freeBlockMap s' = freeBlockMap s \<and> root s' = root s)
   \<and> fst (createFile (newFileSystem ''disk'' 1 4 0) ''/x'' ''abcde'' None None 1)
        = Inl (Error ''Disk full while creating file'')
   \<and> getFreeBlockCount (snd (createFile (newFileSystem ''disk'' 1 4 0) ''/x'' ''abcde'' None None 1))
        = 1"
proof (intro conjI impI)
  assume a: "wellFormed s \<and> createFile s p c ownerOpt modeOpt t
               = (Inl (Error ''Disk full while creating file''), s')"
  then have "allocLoop c 0 [] s = (None, s')"
    using createFile_diskfull_alloc by blast
  with a have "freeBlockMap s' = freeBlockMap s \<and> root s' = root s"
    using allocLoop_fail_restores by blast
  then show "getFreeBlockCount s' = getFreeBlockCount s"
    and "freeBlockMap s' = freeBlockMap s" and "root s' = root s"
    by (simp_all add: getFreeBlockCount_def)
next
  show "fst (createFile (newFileSystem ''disk'' 1 4 0) ''/x'' ''abcde'' None None 1)
          = Inl (Error ''Disk full while creating file'')"
    by code_simp
next
  show "getFreeBlockCount (snd (createFile (newFileSystem ''disk'' 1 4 0) ''/x'' ''abcde'' None None 1))
          = 1"
    by code_simp
qed

theorem createFile_diskfull_rollback_witness:
  "wellFormed (newFileSystem ''disk'' 1 4 0)
   \<and> createFile (newFileSystem ''disk'' 1 4 0) ''/x'' ''abcde'' None None 1
        = (Inl (Error ''Disk full while creating file''), newFileSystem ''disk'' 1 4 0)
   \<and> getFreeBlockCount (newFileSystem ''disk'' 1 4 0) = 1"
proof -
  have h: "wellFormed (newFileSystem ''disk'' 1 4 0)
           \<and> createFile (newFileSystem ''disk'' 1 4 0) ''/x'' ''abcde'' None None 1
                = (Inl (Error ''Disk full while creating file''), newFileSystem ''disk'' 1 4 0)"
    by code_simp
  have c: "getFreeBlockCount (newFileSystem ''disk'' 1 4 0) = 1"
    by code_simp
  show ?thesis
    using h c
      createFile_diskfull_rollback [of "newFileSystem ''disk'' 1 4 0" "''/x''" "''abcde''"
        None None 1 "newFileSystem ''disk'' 1 4 0"]
    by simp
qed

section \<open>Moving or copying onto an existing file\<close>

text \<open>
  Claim C3: when the destination resolves to an existing file, \<^verbatim>\<open>move\<close> and
  \<^verbatim>\<open>copy\<close> fail with the invalid-destination error (message
  \<^verbatim>\<open>Destination exists and is not a directory\<close>), as distinct from the
  already-exists error (message \<^verbatim>\<open>Destination entry already exists\<close>). The
  evaluation below shows what the code does instead: with files at \<^verbatim>\<open>/a\<close> and
  \<^verbatim>\<open>/b\<close>, both \<^verbatim>\<open>move("/a", "/b")\<close> and \<^verbatim>\<open>copy("/a", "/b")\<close> fail with the
  already-exists message, because the invalid-destination error is thrown inside the
  \<^verbatim>\<open>try\<close> block and swallowed by its own \<^verbatim>\<open>catch\<close>.
\<close>

theorem move_copy_onto_file_already_exists:
  "getNode twoFiles ''/a''
     = Inr (FileNode ''a'' [0, 1] 5
             \<lparr>createdAt = 1, updatedAt = 1, owner = ''root'', mode = ''rw-r--r--''\<rparr>)
   \<and> getNode twoFiles ''/b''
     = Inr (FileNode ''b'' [2] 2
             \<lparr>createdAt = 2, updatedAt = 2, owner = ''root'', mode = ''rw-r--r--''\<rparr>)
   \<and> move twoFiles ''/a'' ''/b'' 3
     = (Inl (Error ''Destination entry already exists''), twoFiles)
   \<and> copy twoFiles ''/a'' ''/b'' 3
     = (Inl (Error ''Destination entry already exists''), twoFiles)"
  unfolding twoFiles_def eightBlockVolume_def by code_simp

section \<open>Copying a directory\<close>

text \<open>
  Claim C4: \<^verbatim>\<open>copy\<close> clones a directory by cloning each child under that child's
  own name. The evaluation below shows what the code does instead: the directory
  \<^verbatim>\<open>/a\<close> holds the files \<^verbatim>\<open>x\<close> and \<^verbatim>\<open>y\<close>; its copy at \<^verbatim>\<open>/c\<close> holds
  a single child, named \<^verbatim>\<open>c\<close> after the destination, with the content of
  \<^verbatim>\<open>y\<close>; neither \<^verbatim>\<open>/c/x\<close> nor \<^verbatim>\<open>/c/y\<close> exists.
\<close>

theorem copy_directory_children_under_destName:
  "fst (readFile dirWithTwoFiles ''/a/x'') = Inr ''xx''
   \<and> fst (readFile dirWithTwoFiles ''/a/y'') = Inr ''yyyyy''
   \<and> fst (copy dirWithTwoFiles ''/a'' ''/c'' 4)
     = Inr (DirectoryNode ''c''
             [(''c'', FileNode ''c'' [4, 5] 5
                 \<lparr>createdAt = 4, updatedAt = 4, owner = ''root'', mode = ''rw-r--r--''\<rparr>)]
             \<lparr>createdAt = 4, updatedAt = 4, owner = ''root'', mode = ''rwxr-xr-x''\<rparr>)
   \<and> fst (readFile (snd (copy dirWithTwoFiles ''/a'' ''/c'' 4)) ''/c/x'')
     = Inl (Error ''Path does not exist: x (while resolving /c/x)'')
   \<and> fst (readFile (snd (copy dirWithTwoFiles ''/a'' ''/c'' 4)) ''/c/y'')
     = Inl (Error ''Path does not exist: y (while resolving /c/y)'')
   \<and> fst (readFile (snd (copy dirWithTwoFiles ''/a'' ''/c'' 4)) ''/c/c'') = Inr ''yyyyy''"
  unfolding dirWithTwoFiles_def eightBlockVolume_def by code_simp

section \<open>Reading back what was written\<close>

text \<open>
  The round trip where both operations resolve the same node: on a well-formed volume,
  for every path \<open>p\<close> whose normalized form is left unchanged by normalizing it again
  (every absolute path is one, by \<open>normalizePath_absolute_idem\<close>) and at which a file
  exists, and for every content \<open>c\<close> that fits in the free blocks, \<^verbatim>\<open>writeFile(p, c)\<close>
  succeeds and \<^verbatim>\<open>readFile(p)\<close> then returns exactly \<open>c\<close>.
\<close>

lemma writeFile_readFile_stable_path:
  assumes wf: "wellFormed s"
    and norm: "normalizePath p = Inr normalized"
    and stable: "normalizePath normalized = Inr normalized"
    and node: "getNode s p = Inr (FileNode nm old sz m)"
    and fits: "length c \<le> blockSize s * getFreeBlockCount s"
  shows "\<exists>newBlocks s'.
           writeFile s p c t = (Inr (FileNode nm newBlocks (length c) (m\<lparr>updatedAt := t\<rparr>)), s')
           \<and> readFile s' p = (Inr c, s')"
proof -
  let ?s1 = "freeBlocks old s"
  let ?pn = "prototypeName s"
  have wf1: "wellFormed ?s1" using wf by (rule freeBlocks_wellFormed)
  have parts: "walkedParts normalized = walkedParts p"
    using norm stable by (simp add: walkedParts_def)
  have walk: "walkNode ?pn p (root s) (walkedParts p) = Inr (FileNode nm old sz m)"
    using node getNode_walk [OF norm] by simp
  then have "walkNode ?pn normalized (root s) (walkedParts p) = Inr (FileNode nm old sz m)"
    by (rule walkNode_path_irrelevant)
  then have node2: "getNode s normalized = Inr (FileNode nm old sz m)"
    using getNode_walk [OF stable, of s] parts by simp
  have "length c \<le> blockSize ?s1 * count_list (freeBlockMap ?s1) 0"
  proof -
    have "getFreeBlockCount s \<le> getFreeBlockCount ?s1"
      using wf by (rule freeBlocks_count_mono)
    then have "blockSize s * getFreeBlockCount s \<le> blockSize s * getFreeBlockCount ?s1"
      by (rule mult_le_mono2)
    with fits have "length c \<le> blockSize s * getFreeBlockCount ?s1"
      by (rule le_trans)
    then show ?thesis
      by (simp only: freeBlocks_frame getFreeBlockCount_count)
  qed
  then have "length c - 0 \<le> blockSize ?s1 * count_list (freeBlockMap ?s1) 0" by simp
  from allocLoop_success_exists [OF wf1 this] obtain newBlocks s2 where
    run: "allocLoop c 0 [] ?s1 = (Some newBlocks, s2)" by blast
  have frame: "root s2 = root s" and pn: "prototypeName s2 = ?pn"
    using allocLoop_success_frame [OF wf1 run] by (simp_all add: freeBlocks_frame)
  have content: "readBlocks s2 newBlocks = c"
    using allocLoop_success_content [OF wf1 _ run] by (simp add: readBlocks_def)
  let ?f = "setContent newBlocks (length c) t"
  let ?s' = "s2\<lparr>root := updateAt (walkedParts normalized) ?f (root s2)\<rparr>"
  have w: "writeFile s p c t = (Inr (?f (FileNode nm old sz m)), ?s')"
    using norm node2 run by (simp add: writeFile_def)
  have "walkNode ?pn p (updateAt (walkedParts p) ?f (root s)) (walkedParts p)
          = Inr (?f (FileNode nm old sz m))"
    using walk by (rule walkNode_updateAt) simp
  then have "getNode ?s' p = Inr (FileNode nm newBlocks (length c) (m\<lparr>updatedAt := t\<rparr>))"
    using getNode_walk [OF norm, of ?s'] parts frame pn by simp
  moreover have "readBlocks ?s' newBlocks = c"
    using content by (simp add: readBlocks_def)
  ultimately have "readFile ?s' p = (Inr c, ?s')"
    by (simp add: readFile_def)
  with w show ?thesis by simp
qed

text \<open>The round trip at an absolute path, with a content longer than a block.\<close>

lemma writeFile_readFile_stable_path_example:
  "wellFormed twoFiles
   \<and> normalizePath ''/a'' = Inr ''/a''
   \<and> getNode twoFiles ''/a''
        = Inr (FileNode ''a'' [0, 1] 5
                \<lparr>createdAt = 1, updatedAt = 1, owner = ''root'', mode = ''rw-r--r--''\<rparr>)
   \<and> length ''hello world!'' \<le> blockSize twoFiles * getFreeBlockCount twoFiles
   \<and> blockSize twoFiles < length ''hello world!''
   \<and> readFile (snd (writeFile twoFiles ''/a'' ''hello world!'' 3)) ''/a''
        = (Inr ''hello world!'', snd (writeFile twoFiles ''/a'' ''hello world!'' 3))"
proof -
  have h1: "wellFormed twoFiles"
    unfolding twoFiles_def eightBlockVolume_def by code_simp
  have h2: "normalizePath ''/a'' = Inr ''/a''" by code_simp
  have h3: "getNode twoFiles ''/a''
        = Inr (FileNode ''a'' [0, 1] 5
                \<lparr>createdAt = 1, updatedAt = 1, owner = ''root'', mode = ''rw-r--r--''\<rparr>)"
    unfolding twoFiles_def eightBlockVolume_def by code_simp
  have h4: "length ''hello world!'' \<le> blockSize twoFiles * getFreeBlockCount twoFiles"
    unfolding twoFiles_def eightBlockVolume_def by code_simp
  have h5: "blockSize twoFiles < length ''hello world!''"
    unfolding twoFiles_def eightBlockVolume_def by code_simp
  from writeFile_readFile_stable_path [OF h1 h2 h2 h3 h4, of 3]
  have "readFile (snd (writeFile twoFiles ''/a'' ''hello world!'' 3)) ''/a''
        = (Inr ''hello world!'', snd (writeFile twoFiles ''/a'' ''hello world!'' 3))"
    by auto
  with h1 h2 h3 h4 h5 show ?thesis by simp
qed

text \<open>
  Claim C5: for every path \<open>p\<close> at which a file exists and every content \<open>c\<close> that
  fits in the free blocks, \<^verbatim>\<open>readFile(p)\<close> after \<^verbatim>\<open>writeFile(p, c)\<close> returns exactly
  \<open>c\<close>. The evaluation below shows what the code does instead at the path
  \<^verbatim>\<open>../a\<close>. \<^verbatim>\<open>readFile\<close> resolves \<^verbatim>\<open>getNode(p)\<close>, \<^verbatim>\<open>writeFile\<close> resolves
  \<^verbatim>\<open>getNode(normalizePath(p))\<close>, and normalizing twice is not normalizing once:
  \<^verbatim>\<open>../a\<close> becomes \<^verbatim>\<open>/../a\<close> and then \<^verbatim>\<open>/a\<close>. In the volume with a directory
  named \<^verbatim>\<open>..\<close>, the file that \<^verbatim>\<open>readFile("../a")\<close> reads holds \<^verbatim>\<open>y\<close> and the
  content \<^verbatim>\<open>new\<close> fits; \<^verbatim>\<open>writeFile("../a", "new")\<close> succeeds by overwriting
  another file, \<^verbatim>\<open>/a\<close>, and \<^verbatim>\<open>readFile("../a")\<close> still returns \<^verbatim>\<open>y\<close>.
\<close>

theorem relative_path_write_read_mismatch:
  "wellFormed dotDotVolume
   \<and> normalizePath ''../a'' = Inr ''/../a''
   \<and> normalizePath ''/../a'' = Inr ''/a''
   \<and> getNode dotDotVolume ''../a''
        = Inr (FileNode ''a'' [0] 1
                \<lparr>createdAt = 2, updatedAt = 2, owner = ''root'', mode = ''rw-r--r--''\<rparr>)
   \<and> fst (readFile dotDotVolume ''../a'') = Inr ''y''
   \<and> fst (readFile dotDotVolume ''/a'') = Inr ''x''
   \<and> length ''new'' \<le> blockSize dotDotVolume * getFreeBlockCount dotDotVolume
   \<and> fst (writeFile dotDotVolume ''../a'' ''new'' 5)
        = Inr (FileNode ''a'' [1] 3
                \<lparr>createdAt = 4, updatedAt = 5, owner = ''root'', mode = ''rw-r--r--''\<rparr>)
   \<and> fst (readFile (snd (writeFile dotDotVolume ''../a'' ''new'' 5)) ''../a'') = Inr ''y''
   \<and> fst (readFile (snd (writeFile dotDotVolume ''../a'' ''new'' 5)) ''/a'') = Inr ''new''"
  unfolding dotDotVolume_def eightBlockVolume_def by code_simp

section \<open>Resolving a unified path\<close>

text \<open>
  Claim C6, as the code has it: for every mount table in the order the manager keeps
  (longest mount point first) that holds the root entry, and for every non-empty unified
  path, with \<open>p\<close> its normalized form: when no entry other than the root matches
  \<open>p\<close> (equal to the mount point, or starting with the mount point and a
  separator), \<^verbatim>\<open>resolve\<close> returns the root volume with the inner path \<open>p\<close>;
  otherwise it returns a matching entry whose mount point is longest among the matching
  ones, and the inner path is the normalized form of \<open>p\<close> without the mount point
  (\<^verbatim>\<open>/\<close> when nothing remains). In particular, with mounts at \<^verbatim>\<open>/\<close> and
  \<^verbatim>\<open>/mnt/usb\<close>, \<^verbatim>\<open>/mnt/usb/x.txt\<close> resolves to the usb volume with inner path
  \<^verbatim>\<open>/x.txt\<close>, and \<^verbatim>\<open>/mnt/other\<close> to the root volume with inner path
  \<^verbatim>\<open>/mnt/other\<close>.
\<close>

theorem resolve_longest_prefix:
  "(sortedMounts ms \<and> normalizePath vfsPath = Inr p
      \<and> find (\<lambda>m. fst m = ''/'') ms = Some rootMount
    \<longrightarrow> ((\<forall>m\<in>set ms. \<not> mountMatches (fst m) p)
            \<longrightarrow> resolve ms vfsPath = Inr (snd rootMount, p, ''/''))
        \<and> ((\<exists>m\<in>set ms. mountMatches (fst m) p)
            \<longrightarrow> (\<exists>m\<in>set ms. mountMatches (fst m) p
                   \<and> (\<forall>m'\<in>set ms. mountMatches (fst m') p
                          \<longrightarrow> length (fst m') \<le> length (fst m))
                   \<and> (\<exists>inner. normalizePath (stripMount (fst m) p) = Inr inner
                         \<and> resolve ms vfsPath = Inr (snd m, inner, fst m)))))
   \<and> map fst usbMounts = [''/mnt/usb'', ''/'']
   \<and> resolvedTo usbMounts ''/mnt/usb/x.txt'' = Inr (''usb'', ''/x.txt'', ''/mnt/usb'')
   \<and> resolvedTo usbMounts ''/mnt/other'' = Inr (''root'', ''/mnt/other'', ''/'')"
proof (intro conjI impI)
  assume "sortedMounts ms \<and> normalizePath vfsPath = Inr p
      \<and> find (\<lambda>m. fst m = ''/'') ms = Some rootMount"
    and "\<forall>m\<in>set ms. \<not> mountMatches (fst m) p"
  then show "resolve ms vfsPath = Inr (snd rootMount, p, ''/'')"
    using resolve_fallback by blast
next
  assume "sortedMounts ms \<and> normalizePath vfsPath = Inr p
      \<and> find (\<lambda>m. fst m = ''/'') ms = Some rootMount"
    and "\<exists>m\<in>set ms. mountMatches (fst m) p"
  then show "\<exists>m\<in>set ms. mountMatches (fst m) p
                   \<and> (\<forall>m'\<in>set ms. mountMatches (fst m') p
                          \<longrightarrow> length (fst m') \<le> length (fst m))
                   \<and> (\<exists>inner. normalizePath (stripMount (fst m) p) = Inr inner
                         \<and> resolve ms vfsPath = Inr (snd m, inner, fst m))"
    using resolve_match by blast
next
  show "map fst usbMounts = [''/mnt/usb'', ''/'']"
    unfolding usbMounts_def by code_simp
next
  show "resolvedTo usbMounts ''/mnt/usb/x.txt'' = Inr (''usb'', ''/x.txt'', ''/mnt/usb'')"
    unfolding usbMounts_def by code_simp
next
  show "resolvedTo usbMounts ''/mnt/other'' = Inr (''root'', ''/mnt/other'', ''/'')"
    unfolding usbMounts_def by code_simp
qed

theorem resolve_longest_prefix_witness:
  "sortedMounts usbMounts
   \<and> normalizePath ''/mnt/usb/x.txt'' = Inr ''/mnt/usb/x.txt''
   \<and> find (\<lambda>m. fst m = ''/'') usbMounts = Some (''/'', newFileSystem ''root'' 4096 4096 0)
   \<and> (\<exists>m\<in>set usbMounts. mountMatches (fst m) ''/mnt/usb/x.txt'')
   \<and> (\<exists>m\<in>set usbMounts. mountMatches (fst m) ''/mnt/usb/x.txt''
         \<and> (\<forall>m'\<in>set usbMounts. mountMatches (fst m') ''/mnt/usb/x.txt''
                \<longrightarrow> length (fst m') \<le> length (fst m))
         \<and> (\<exists>inner. normalizePath (stripMount (fst m) ''/mnt/usb/x.txt'') = Inr inner
               \<and> resolve usbMounts ''/mnt/usb/x.txt'' = Inr (snd m, inner, fst m)))
   \<and> \<not> (\<exists>m\<in>set usbMounts. mountMatches (fst m) ''/mnt/other'')
   \<and> normalizePath ''/mnt/other'' = Inr ''/mnt/other''
   \<and> resolve usbMounts ''/mnt/other''
        = Inr (newFileSystem ''root'' 4096 4096 0, ''/mnt/other'', ''/'')"
proof -
  have h1: "sortedMounts usbMounts"
    unfolding usbMounts_def
    by (simp add: sortedMounts_mount split: sum.splits) (simp add: sortedMounts_def)
  have h2: "normalizePath ''/mnt/usb/x.txt'' = Inr ''/mnt/usb/x.txt''" by code_simp
  have h2': "normalizePath ''/mnt/other'' = Inr ''/mnt/other''" by code_simp
  have ms: "usbMounts = [(''/mnt/usb'', newFileSystem ''usb'' 1 4 0),
                         (''/'', newFileSystem ''root'' 4096 4096 0)]"
    unfolding usbMounts_def mount_def newVFSManager_def sortMounts_def
    by (simp add: h2 normalizePath_def posix_normalize_def normalizeString_def
          normalizeStep_def startsWith_def Let_def)
  have h3: "find (\<lambda>m. fst m = ''/'') usbMounts = Some (''/'', newFileSystem ''root'' 4096 4096 0)"
    by (simp add: ms)
  have h4: "\<exists>m\<in>set usbMounts. mountMatches (fst m) ''/mnt/usb/x.txt''"
    by (simp add: ms mountMatches_def startsWith_def)
  have h5: "\<not> (\<exists>m\<in>set usbMounts. mountMatches (fst m) ''/mnt/other'')"
    by (simp add: ms mountMatches_def startsWith_def)
  show ?thesis
    using h1 h2 h2' h3 h4 h5
      resolve_longest_prefix [of usbMounts "''/mnt/usb/x.txt''" "''/mnt/usb/x.txt''"
        "(''/'', newFileSystem ''root'' 4096 4096 0)"]
      resolve_longest_prefix [of usbMounts "''/mnt/other''" "''/mnt/other''"
        "(''/'', newFileSystem ''root'' 4096 4096 0)"]
    by simp
qed

text \<open>
  The claim as written lets the inner path be the path without the mount point. With a
  volume mounted at \<^verbatim>\<open>..\<close> (mount point \<^verbatim>\<open>/..\<close>), the path \<^verbatim>\<open>../..\<close>
  normalizes to \<^verbatim>\<open>/../..\<close>, which matches; what remains after the mount point is
  \<^verbatim>\<open>/..\<close>, and the inner path \<^verbatim>\<open>resolve\<close> returns is \<^verbatim>\<open>/\<close>.
\<close>

theorem resolve_normalizes_remainder:
  "map fst dotDotMounts = [''/..'', ''/'']
   \<and> normalizePath ''../..'' = Inr ''/../..''
   \<and> mountMatches ''/..'' ''/../..''
   \<and> drop (length ''/..'') ''/../..'' = ''/..''
   \<and> resolvedTo dotDotMounts ''../..'' = Inr (''usb'', ''/'', ''/..'')"
  unfolding dotDotMounts_def by code_simp

section \<open>Path normalization on the empty path\<close>

text \<open>
  Claim C7: path normalization maps an empty path to the root path \<^verbatim>\<open>/\<close> and returns
  it rather than failing. On the code the empty path does not come back as a result:
  \<^verbatim>\<open>normalizePath("")\<close> throws, and the thrown value is the string \<^verbatim>\<open>/\<close>.
\<close>

theorem normalizePath_empty_throws:
  "normalizePath [] = Inl (ThrownValue ''/'') \<and> normalizePath [] \<noteq> Inr ''/''"
  by (simp add: normalizePath_def)

text \<open>
  For a non-empty path the function returns, and the result begins with a separator. It
  is not always free of dot segments: a relative path that climbs above its start, or
  that collapses to nothing, keeps them behind the separator that is put in front.
\<close>

lemma normalizePath_relative_examples:
  "normalizePath ''a/../b'' = Inr ''/b'' \<and> normalizePath ''/a//b/./c'' = Inr ''/a/b/c''
   \<and> normalizePath ''..'' = Inr ''/..'' \<and> normalizePath ''.'' = Inr ''/.''
   \<and> normalizePath ''/..'' = Inr ''/'' \<and> normalizePath ''/.'' = Inr ''/''"
  by code_simp

section \<open>Free blocks hold the empty chunk\<close>

text \<open>
  Claim C8, as the code has it: in every volume reachable from the constructor by the
  allocator calls and the volume operations (\<^verbatim>\<open>createDirectory\<close>, \<^verbatim>\<open>createFile\<close>,
  \<^verbatim>\<open>writeFile\<close>, \<^verbatim>\<open>appendFile\<close>, \<^verbatim>\<open>deleteNode\<close>, \<^verbatim>\<open>rename\<close>,
  \<^verbatim>\<open>move\<close>, \<^verbatim>\<open>copy\<close>, successful or not, with the rollbacks they perform, and
  \<^verbatim>\<open>format\<close> with the \<^verbatim>\<open>zeroBlocks\<close> option), every block whose occupancy
  flag is 0 holds the empty chunk.
\<close>

theorem reachable_free_blocks_empty:
  "reachable s \<Longrightarrow> freeBlocksEmpty s"
proof -
  assume "reachable s"
  then have "cleanVolume s" by (rule reachable_cleanVolume)
  then show "freeBlocksEmpty s" by (simp add: cleanVolume_def)
qed

theorem reachable_free_blocks_empty_witness:
  "reachable (snd (deleteNode fullVolume ''/x'' 2))
   \<and> freeBlockMap (snd (deleteNode fullVolume ''/x'' 2)) = [0]
   \<and> blocks (snd (deleteNode fullVolume ''/x'' 2)) = [[]]
   \<and> freeBlocksEmpty (snd (deleteNode fullVolume ''/x'' 2))"
proof -
  have r: "reachable (snd (deleteNode fullVolume ''/x'' 2))"
    unfolding fullVolume_def oneBlockVolume_def
    by (intro reachable.deleted reachable.createdFile reachable.constructed)
  have v: "freeBlockMap (snd (deleteNode fullVolume ''/x'' 2)) = [0]
           \<and> blocks (snd (deleteNode fullVolume ''/x'' 2)) = [[]]"
    unfolding fullVolume_def oneBlockVolume_def by code_simp
  show ?thesis
    using r v reachable_free_blocks_empty [OF r] by simp
qed

text \<open>
  The claim as written includes \<^verbatim>\<open>format\<close> without the \<^verbatim>\<open>zeroBlocks\<close> option.
  That call resets the occupancy table and keeps the block array: on the full one-block
  volume it leaves block 0 free with the chunk \<^verbatim>\<open>abc\<close>.
\<close>

theorem format_without_zeroBlocks_leaves_chunks:
  "freeBlocksEmpty fullVolume
   \<and> freeBlockMap (format False 2 fullVolume) = [0]
   \<and> blocks (format False 2 fullVolume) = [''abc'']
   \<and> \<not> freeBlocksEmpty (format False 2 fullVolume)"
  unfolding fullVolume_def oneBlockVolume_def by code_simp

section \<open>Read-only operations\<close>

text \<open>
  Claim C9: \<^verbatim>\<open>readFile\<close>, \<^verbatim>\<open>listDirectory\<close>, \<^verbatim>\<open>stat\<close> and \<^verbatim>\<open>search\<close> leave
  the whole volume as it was (tree, metadata, occupancy table, block contents and with
  them the free-block count), whether they return a result or throw.
\<close>

theorem read_only_operations_frame:
  "snd (readFile s p) = s \<and> snd (listDirectory s p) = s
   \<and> snd (stat s p) = s \<and> snd (search s p predicate) = s"
  by (simp add: readFile_def listDirectory_def stat_def search_def
           split: sum.splits FSNode.splits)

section \<open>Creating an empty file\<close>

text \<open>
  Where the test of \<^verbatim>\<open>createFile\<close> finds nothing under the final name,
  \<^verbatim>\<open>createFile(p, "")\<close> succeeds whatever the number of free blocks: it takes no block
  (occupancy table and block array are unchanged), returns a file node with an empty
  block list and size 0, and the parent directory then holds that node under the final
  name.
\<close>

lemma createFile_empty_content:
  assumes "normalizePath p = Inr normalized"
    and "resolveParent s normalized = Inr (ppath, parent, nm)"
    and "childValue (prototypeName s) (children parent) nm = None"
    and "isDirectory (root s)"
  shows "fst (createFile s p [] ownerOpt modeOpt t)
           = Inr (FileNode nm [] 0
                   \<lparr>createdAt = t, updatedAt = t,
                    owner = (case ownerOpt of None \<Rightarrow> ''root'' | Some x \<Rightarrow> x),
                    mode = (case modeOpt of None \<Rightarrow> defaultMode False | Some x \<Rightarrow> x)\<rparr>)
         \<and> freeBlockMap (snd (createFile s p [] ownerOpt modeOpt t)) = freeBlockMap s
         \<and> blocks (snd (createFile s p [] ownerOpt modeOpt t)) = blocks s
         \<and> getFreeBlockCount (snd (createFile s p [] ownerOpt modeOpt t)) = getFreeBlockCount s
         \<and> (\<exists>parent'. resolveParent (snd (createFile s p [] ownerOpt modeOpt t)) normalized
                          = Inr (ppath, parent', nm)
                \<and> map_of (children parent') nm = Some (FileNode nm [] 0
                   \<lparr>createdAt = t, updatedAt = t,
                    owner = (case ownerOpt of None \<Rightarrow> ''root'' | Some x \<Rightarrow> x),
                    mode = (case modeOpt of None \<Rightarrow> defaultMode False | Some x \<Rightarrow> x)\<rparr>))"
proof -
  let ?node = "FileNode nm [] 0
                   \<lparr>createdAt = t, updatedAt = t,
                    owner = (case ownerOpt of None \<Rightarrow> ''root'' | Some x \<Rightarrow> x),
                    mode = (case modeOpt of None \<Rightarrow> defaultMode False | Some x \<Rightarrow> x)\<rparr>"
  let ?f = "touch t \<circ> putChild nm ?node"
  let ?pn = "prototypeName s"
  have run: "createFile s p [] ownerOpt modeOpt t
               = (Inr ?node, s\<lparr>root := updateAt ppath ?f (root s)\<rparr>)"
    using assms(1-3) by (simp add: createFile_def createFileNode_def allocLoop_empty)
  obtain n2 where n2: "normalizePath normalized = Inr n2"
    and parts: "pathParts n2 \<noteq> []" "ppath = butlast (pathParts n2)" "nm = last (pathParts n2)"
    and walk: "walkDirs ?pn (root s) [] (butlast (pathParts n2)) = Inr parent"
    using assms(2)
    by (auto simp: resolveParent_def Let_def split: sum.splits if_splits)
  have keep: "\<forall>x. isDirectory x \<longrightarrow> isDirectory (?f x)"
  proof (intro allI impI)
    fix x assume "isDirectory x"
    then show "isDirectory (?f x)" by (cases x) simp_all
  qed
  have walk': "walkDirs ?pn (updateAt ppath ?f (root s)) [] ppath = Inr (?f parent)"
    unfolding parts(2) by (rule walkDirs_updateAt [OF walk keep assms(4)])
  have pdir: "isDirectory parent"
    using walkDirs_isDirectory [OF walk assms(4)] .
  have res: "resolveParent (s\<lparr>root := updateAt ppath ?f (root s)\<rparr>) normalized
               = Inr (ppath, ?f parent, nm)"
    using n2 parts walk' by (simp add: resolveParent_def Let_def)
  have found: "map_of (children (?f parent)) nm = Some ?node"
    using pdir by (cases parent) (simp_all add: map_of_setChild)
  show ?thesis
    using run res found by (simp add: getFreeBlockCount_def)
qed

text \<open>
  Claim C10: for every path whose parent exists as a directory and whose final name is
  unused, \<^verbatim>\<open>createFile(p, "")\<close> succeeds even when no block is free: it allocates no
  block and inserts a file node with an empty block list and size 0. The evaluation
  below shows where the code does something else. The root of the full one-block volume
  holds the single entry \<^verbatim>\<open>x\<close>. \<^verbatim>\<open>createFile("/y", "")\<close> succeeds there as the
  claim says, but \<^verbatim>\<open>createFile("/constructor", "")\<close> throws
  \<^verbatim>\<open>Entry already exists\<close> and inserts nothing, although the directory has no entry
  of that name: the test \<^verbatim>\<open>parent.children[name]\<close> is made on a plain object and
  finds the function that every such object inherits under \<^verbatim>\<open>constructor\<close>.
\<close>

theorem createFile_inherited_name_refused:
  "getFreeBlockCount fullVolume = 0
   \<and> resolveParent fullVolume ''/constructor'' = Inr ([], root fullVolume, ''constructor'')
   \<and> isDirectory (root fullVolume)
   \<and> map fst (children (root fullVolume)) = [''x'']
   \<and> fst (createFile fullVolume ''/y'' [] None None 2)
        = Inr (FileNode ''y'' [] 0
                \<lparr>createdAt = 2, updatedAt = 2, owner = ''root'', mode = ''rw-r--r--''\<rparr>)
   \<and> createFile fullVolume ''/constructor'' [] None None 2
        = (Inl (Error ''Entry already exists''), fullVolume)"
  unfolding fullVolume_def oneBlockVolume_def by code_simp

end
